theory Spec2Isabelle
  imports Main
begin

section \<open>The Rust runtime adapter of sst (pkg/runtime/rust/rust.go)\<close>

text \<open>
  The adapter builds a Rust lambda handler with \<^verbatim>\<open>cargo lambda build\<close>, runs the built
  \<^verbatim>\<open>bootstrap\<close> binary as a local worker and decides whether a changed file triggers a
  rebuild. Strings are Go strings read as byte lists; paths are Unix paths.
\<close>

subsection \<open>Go library functions used by the adapter: package strings\<close>

definition strings_HasPrefix :: "string \<Rightarrow> string \<Rightarrow> bool" where
  "strings_HasPrefix s prefix = (length prefix \<le> length s \<and> take (length prefix) s = prefix)"

definition strings_HasSuffix :: "string \<Rightarrow> string \<Rightarrow> bool" where
  "strings_HasSuffix s suffix =
     (length suffix \<le> length s \<and> drop (length s - length suffix) s = suffix)"

definition strings_TrimSuffix :: "string \<Rightarrow> string \<Rightarrow> string" where
  "strings_TrimSuffix s suffix =
     (if strings_HasSuffix s suffix then take (length s - length suffix) s else s)"

fun strings_Join :: "string list \<Rightarrow> string \<Rightarrow> string" where
  "strings_Join [] sep = []"
| "strings_Join [x] sep = x"
| "strings_Join (x # y # ys) sep = x @ sep @ strings_Join (y # ys) sep"

subsection \<open>Go library functions used by the adapter: package path/filepath (Unix)\<close>

definition IsPathSeparator :: "char \<Rightarrow> bool" where
  "IsPathSeparator c = (c = CHR ''/'')"

text \<open>
  The elements of a path between separators, empty elements included: one scan over the
  bytes, \<open>cur\<close> holding the bytes of the element being read, last one first.
\<close>

fun scanElements :: "string \<Rightarrow> string \<Rightarrow> string list" where
  "scanElements cur [] = [rev cur]"
| "scanElements cur (c # cs) =
     (if IsPathSeparator c then rev cur # scanElements [] cs
      else scanElements (c # cur) cs)"

definition elements :: "string \<Rightarrow> string list" where
  "elements path = scanElements [] path"

text \<open>
  \<^verbatim>\<open>filepath.Clean\<close> reads the path element by element and writes into a buffer that holds,
  after the leading separator of a rooted path, a run of \<^verbatim>\<open>..\<close> elements that cannot be
  removed (its end is the index \<^verbatim>\<open>dotdot\<close>) and then the real elements kept so far.
  The state of the loop is the length of that run and the real elements, last one first.
\<close>

definition cleanStep :: "bool \<Rightarrow> string \<Rightarrow> nat \<times> string list \<Rightarrow> nat \<times> string list" where
  "cleanStep rooted e st =
     (case st of (dotdot, kept) \<Rightarrow>
        if e = [] \<or> e = ''.'' then (dotdot, kept)
        else if e = ''..'' then
          (if kept \<noteq> [] then (dotdot, tl kept)
           else if \<not> rooted then (Suc dotdot, [])
           else (dotdot, kept))
        else (dotdot, e # kept))"

definition filepath_Clean :: "string \<Rightarrow> string" where
  "filepath_Clean path =
     (if path = [] then ''.''
      else
        let rooted = IsPathSeparator (hd path);
            st = fold (cleanStep rooted) (elements path) (0, []);
            out = (if rooted then ''/'' else []) @
                  strings_Join (replicate (fst st) ''..'' @ rev (snd st)) ''/''
        in if out = [] then ''.'' else out)"


definition filepath_Join :: "string list \<Rightarrow> string" where
  "filepath_Join elem =
     (case dropWhile (\<lambda>e. e = []) elem of
        [] \<Rightarrow> []
      | es \<Rightarrow> filepath_Clean (strings_Join es ''/''))"

text \<open>\<^verbatim>\<open>filepath.Dir\<close>: everything up to and including the last separator, cleaned.\<close>

definition filepath_Dir :: "string \<Rightarrow> string" where
  "filepath_Dir path =
     filepath_Clean (rev (dropWhile (\<lambda>c. \<not> IsPathSeparator c) (rev path)))"

definition filepath_Base :: "string \<Rightarrow> string" where
  "filepath_Base path =
     (if path = [] then ''.''
      else
        let stripped = rev (dropWhile IsPathSeparator (rev path));
            lastElem = rev (takeWhile (\<lambda>c. \<not> IsPathSeparator c) (rev stripped))
        in if lastElem = [] then ''/'' else lastElem)"

text \<open>
  \<^verbatim>\<open>filepath.Ext\<close> scans from the end of the path, stops at a separator and returns the
  suffix that starts at the first dot it meets. The scan is over the reversed path; the
  accumulator holds the bytes already passed.
\<close>

fun extScan :: "string \<Rightarrow> string \<Rightarrow> string" where
  "extScan acc [] = []"
| "extScan acc (c # cs) =
     (if IsPathSeparator c then []
      else if c = CHR ''.'' then c # acc
      else extScan (c # acc) cs)"

definition filepath_Ext :: "string \<Rightarrow> string" where
  "filepath_Ext path = extScan [] (rev path)"

definition filepath_IsAbs :: "string \<Rightarrow> bool" where
  "filepath_IsAbs path = strings_HasPrefix path ''/''"

text \<open>
  \<^verbatim>\<open>filepath.Abs\<close> (Unix): an absolute path is cleaned; a relative one is joined to the
  working directory, and when the working directory cannot be read the result is the
  empty string together with the error.
\<close>

datatype error =
    FileNotFound string
  | PathError string string
  | RelError string string
  | GetwdError
  | DecodeError
  | ExitError
  | DirsError string error

definition filepath_Abs :: "error + string \<Rightarrow> string \<Rightarrow> string \<times> error option" where
  "filepath_Abs getwd path =
     (if filepath_IsAbs path then (filepath_Clean path, None)
      else case getwd of
             Inl err \<Rightarrow> ([], Some err)
           | Inr wd \<Rightarrow> (filepath_Join [wd, path], None))"

text \<open>
  \<^verbatim>\<open>filepath.Rel\<close>, by what it returns. Both paths are cleaned; if they are then equal
  the result is \<^verbatim>\<open>.\<close>. A cleaned path that is \<^verbatim>\<open>.\<close> has no elements, a rooted one
  begins with the empty element. A rooted path cannot be made relative to an unrooted one
  or the other way round. Otherwise the leading elements the two paths share are dropped.
  If what is left of \<^verbatim>\<open>base\<close> begins with \<^verbatim>\<open>..\<close>, the answer would depend on the
  working directory, and \<^verbatim>\<open>Rel\<close> fails; else the result climbs once for every element
  left of \<^verbatim>\<open>base\<close> and then descends through what is left of \<^verbatim>\<open>targ\<close>.
\<close>

definition splitElems :: "string \<Rightarrow> string list" where
  "splitElems s =
     (if s = ''.'' then []
      else if s = [] \<or> IsPathSeparator (last s) then butlast (elements s)
      else elements s)"

fun dropCommon :: "string list \<Rightarrow> string list \<Rightarrow> string list \<times> string list" where
  "dropCommon (b # bs) (t # ts) = (if t = b then dropCommon bs ts else (b # bs, t # ts))"
| "dropCommon bs ts = (bs, ts)"

definition filepath_Rel :: "string \<Rightarrow> string \<Rightarrow> error + string" where
  "filepath_Rel basepath targpath =
     (let base = filepath_Clean basepath;
          targ = filepath_Clean targpath
      in if targ = base then Inr ''.''
         else
           let baseSlashed = (base \<noteq> [] \<and> IsPathSeparator (hd base));
               targSlashed = (targ \<noteq> [] \<and> IsPathSeparator (hd targ))
           in if baseSlashed \<noteq> targSlashed then Inl (RelError targpath basepath)
              else
                case dropCommon (splitElems base) (splitElems targ) of
                  (baseLeft, targLeft) \<Rightarrow>
                    if baseLeft \<noteq> [] \<and> hd baseLeft = ''..''
                    then Inl (RelError targpath basepath)
                    else Inr (strings_Join (replicate (length baseLeft) ''..'' @ targLeft) ''/''))"

subsection \<open>The file system and the operating system calls of the adapter\<close>

text \<open>
  A file system maps the path names the process uses to directories and regular files
  (with their bytes) and records which files have been flushed to stable storage.
\<close>

datatype node = Directory | RegularFile string

record FileSystem =
  nodes :: "string \<rightharpoonup> node"
  synced :: "string set"

definition os_Stat :: "FileSystem \<Rightarrow> string \<Rightarrow> error + node" where
  "os_Stat fs name =
     (case nodes fs name of None \<Rightarrow> Inl (PathError ''stat'' name) | Some n \<Rightarrow> Inr n)"

text \<open>The test \<^verbatim>\<open>err == nil\<close> on a call's result.\<close>

definition errIsNil :: "error + 'a \<Rightarrow> bool" where
  "errIsNil r = (case r of Inl _ \<Rightarrow> False | Inr _ \<Rightarrow> True)"

definition os_Open :: "FileSystem \<Rightarrow> string \<Rightarrow> error + string" where
  "os_Open fs name =
     (case nodes fs name of None \<Rightarrow> Inl (PathError ''open'' name) | Some _ \<Rightarrow> Inr name)"

definition os_Mkdir :: "FileSystem \<Rightarrow> string \<Rightarrow> FileSystem" where
  "os_Mkdir fs path = fs\<lparr>nodes := (nodes fs)(path \<mapsto> Directory)\<rparr>"

definition os_Create :: "FileSystem \<Rightarrow> string \<Rightarrow> error + FileSystem" where
  "os_Create fs name =
     (if nodes fs name = Some Directory \<or> nodes fs (filepath_Dir name) \<noteq> Some Directory
      then Inl (PathError ''open'' name)
      else Inr (fs\<lparr>nodes := (nodes fs)(name \<mapsto> RegularFile []), synced := synced fs - {name}\<rparr>))"

definition io_Copy :: "FileSystem \<Rightarrow> string \<Rightarrow> string \<Rightarrow> error + FileSystem" where
  "io_Copy fs dst src =
     (case nodes fs src of
        Some (RegularFile bytes) \<Rightarrow> Inr (fs\<lparr>nodes := (nodes fs)(dst \<mapsto> RegularFile bytes)\<rparr>)
      | _ \<Rightarrow> Inl (PathError ''read'' src))"

definition file_Sync :: "FileSystem \<Rightarrow> string \<Rightarrow> error + FileSystem" where
  "file_Sync fs name = Inr (fs\<lparr>synced := insert name (synced fs)\<rparr>)"

subsection \<open>The upward walks end\<close>

text \<open>
  Every loop of the adapter that climbs the directory tree replaces \<^verbatim>\<open>dir\<close> by
  \<^verbatim>\<open>filepath.Dir(dir)\<close> until that changes nothing. \<open>dirMeasure\<close> decreases on
  every such step: a cleaned path is never longer than the path, and is shorter when the
  path ends in a separator that follows something.
\<close>

definition cost :: "string list \<Rightarrow> nat" where
  "cost xs = sum_list (map (\<lambda>e. Suc (length e)) xs)"

definition total :: "nat \<times> string list \<Rightarrow> nat" where
  "total st = 3 * fst st + cost (snd st)"

definition dirMeasure :: "string \<Rightarrow> nat" where
  "dirMeasure p = (if p = ''.'' then 0 else Suc (length p))"

lemma cost_simps [simp]: "cost [] = 0" "cost (x # xs) = Suc (length x) + cost xs"
  "cost (xs @ ys) = cost xs + cost ys" "cost (rev xs) = cost xs"
  by (simp_all add: cost_def rev_map[symmetric])

lemma cost_replicate [simp]: "cost (replicate n e) = n * Suc (length e)"
  by (induction n) simp_all

lemma length_strings_Join: "length (strings_Join xs ''/'') = cost xs - 1"
  by (induction xs "''/''" rule: strings_Join.induct) simp_all

lemma scanElements_nonempty [simp]: "scanElements cur p \<noteq> []"
  by (induction p arbitrary: cur) simp_all

lemma elements_nonempty [simp]: "elements p \<noteq> []"
  by (simp add: elements_def)

lemma cost_scanElements: "cost (scanElements cur p) = Suc (length cur + length p)"
  by (induction p arbitrary: cur) simp_all

lemma cost_elements: "cost (elements p) = Suc (length p)"
  by (simp add: elements_def cost_scanElements)

lemma scanElements_snoc_sep: "scanElements cur (q @ ''/'') = scanElements cur q @ [[]]"
  by (induction q arbitrary: cur) (simp_all add: IsPathSeparator_def)

lemma elements_snoc_sep: "elements (q @ ''/'') = elements q @ [[]]"
  by (simp add: elements_def scanElements_snoc_sep)

lemma cleanStep_total: "total (cleanStep rooted e st) \<le> total st + Suc (length e)"
  by (cases st; cases "snd st") (auto simp: cleanStep_def total_def)

lemma fold_cleanStep_total: "total (fold (cleanStep rooted) es st) \<le> total st + cost es"
proof (induction es arbitrary: st)
  case Nil show ?case by simp
next
  case (Cons e es)
  have "total (fold (cleanStep rooted) es (cleanStep rooted e st)) \<le> total (cleanStep rooted e st) + cost es"
    by (rule Cons.IH)
  also have "\<dots> \<le> total st + Suc (length e) + cost es" using cleanStep_total[of rooted e st] by simp
  finally show ?case by simp
qed

lemma cleanStep_empty [simp]: "cleanStep rooted [] st = st"
  by (cases st) (simp add: cleanStep_def)

lemma length_Clean_le_aux:
  assumes "p \<noteq> []" "total (fold (cleanStep (IsPathSeparator (hd p))) (elements p) (0, [])) \<le> (if IsPathSeparator (hd p) then k else Suc k)" "0 < k"
  shows "length (filepath_Clean p) \<le> k"
proof -
  let ?st = "fold (cleanStep (IsPathSeparator (hd p))) (elements p) (0, [])"
  let ?els = "replicate (fst ?st) ''..'' @ rev (snd ?st)"
  have c: "cost ?els = total ?st" by (simp add: total_def)
  have l: "length (strings_Join ?els ''/'') = total ?st - 1" using c by (simp add: length_strings_Join)
  show ?thesis
  proof (cases "IsPathSeparator (hd p)")
    case True
    then show ?thesis using assms l
      by (auto simp add: filepath_Clean_def Let_def)
  next
    case False
    then show ?thesis using assms l 
      by (auto simp add: filepath_Clean_def Let_def)
  qed
qed

lemma hd_elements_rooted: "p \<noteq> [] \<Longrightarrow> IsPathSeparator (hd p) \<Longrightarrow> elements p = [] # elements (tl p)"
  by (cases p) (simp_all add: elements_def)

lemma fold_total_path:
  assumes "p \<noteq> []"
  shows "total (fold (cleanStep (IsPathSeparator (hd p))) (elements p) (0, []))
           \<le> (if IsPathSeparator (hd p) then length p else Suc (length p))"
proof (cases "IsPathSeparator (hd p)")
  case True
  with assms have e: "elements p = [] # elements (tl p)" by (simp add: hd_elements_rooted)
  have "total (fold (cleanStep True) (elements (tl p)) (0, [])) \<le> total (0, []) + cost (elements (tl p))"
    by (rule fold_cleanStep_total)
  then show ?thesis using True assms e by (simp add: cost_elements total_def)
next
  case False
  have "total (fold (cleanStep False) (elements p) (0, [])) \<le> total (0, []) + cost (elements p)"
    by (rule fold_cleanStep_total)
  then show ?thesis using False by (simp add: cost_elements total_def)
qed

lemma length_Clean_le: "p \<noteq> [] \<Longrightarrow> length (filepath_Clean p) \<le> length p"
  by (rule length_Clean_le_aux) (simp_all add: fold_total_path)

lemma fold_total_trailing:
  assumes "q \<noteq> []"
  shows "total (fold (cleanStep (IsPathSeparator (hd q))) (elements (q @ ''/'')) (0, []))
           \<le> (if IsPathSeparator (hd q) then length q else Suc (length q))"
  using fold_total_path[OF assms] by (simp add: elements_snoc_sep)

lemma length_Clean_trailing: 
  assumes "q \<noteq> []" shows "length (filepath_Clean (q @ ''/'')) \<le> length q"
proof -
  have h: "hd (q @ ''/'') = hd q" using assms by simp
  show ?thesis
    by (rule length_Clean_le_aux) (use assms h fold_total_trailing[OF assms] in simp_all)
qed

lemma dirPrefix_cases:
  "rev (dropWhile (\<lambda>c. \<not> IsPathSeparator c) (rev p)) = [] \<and> (\<forall>c\<in>set p. \<not> IsPathSeparator c) \<or>
   (\<exists>q r. p = q @ ''/'' @ r \<and> rev (dropWhile (\<lambda>c. \<not> IsPathSeparator c) (rev p)) = q @ ''/'')"
proof (cases "\<forall>c\<in>set p. \<not> IsPathSeparator c")
  case True
  then have "dropWhile (\<lambda>c. \<not> IsPathSeparator c) (rev p) = []" by simp
  with True show ?thesis by simp
next
  case False
  then have "dropWhile (\<lambda>c. \<not> IsPathSeparator c) (rev p) \<noteq> []" by simp
  then obtain c cs where d: "dropWhile (\<lambda>c. \<not> IsPathSeparator c) (rev p) = c # cs"
    by (cases "dropWhile (\<lambda>c. \<not> IsPathSeparator c) (rev p)") auto
  then have c: "c = CHR ''/''" using hd_dropWhile[of "\<lambda>c. \<not> IsPathSeparator c" "rev p"]
    by (simp add: IsPathSeparator_def)
  have "rev p = takeWhile (\<lambda>c. \<not> IsPathSeparator c) (rev p) @ c # cs"
    using d takeWhile_dropWhile_id[of "\<lambda>c. \<not> IsPathSeparator c" "rev p"] by simp
  then have "p = rev cs @ ''/'' @ rev (takeWhile (\<lambda>c. \<not> IsPathSeparator c) (rev p))"
    using c by (metis append_Cons append_Nil rev.simps(2) rev_append rev_rev_ident append_assoc)
  then show ?thesis using d c by auto
qed

lemma Clean_root [simp]: "filepath_Clean ''/'' = ''/''"
  by (simp add: filepath_Clean_def elements_def IsPathSeparator_def cleanStep_def)

lemma Clean_empty [simp]: "filepath_Clean [] = ''.''"
  by (simp add: filepath_Clean_def)

lemma Dir_measure: "filepath_Dir p \<noteq> p \<Longrightarrow> dirMeasure (filepath_Dir p) < dirMeasure p"
proof -
  assume ne: "filepath_Dir p \<noteq> p"
  let ?pre = "rev (dropWhile (\<lambda>c. \<not> IsPathSeparator c) (rev p))"
  from dirPrefix_cases[of p] show ?thesis
  proof (elim disjE conjE exE)
    assume e: "?pre = []"
    have "filepath_Dir p = ''.''" unfolding filepath_Dir_def e by (rule Clean_empty)
    with ne show ?thesis by (simp add: dirMeasure_def)
  next
    fix q r assume p: "p = q @ ''/'' @ r" and pre: "?pre = q @ ''/''"
    have d: "filepath_Dir p = filepath_Clean (q @ ''/'')" using pre by (simp add: filepath_Dir_def)
    have pdot: "p \<noteq> ''.''" using p by (cases q) auto
    show ?thesis
    proof (cases "q = []")
      case True
      with d have "filepath_Dir p = ''/''" by simp
      moreover from this ne p True have "r \<noteq> []" by auto
      ultimately show ?thesis using p True pdot by (simp add: dirMeasure_def)
    next
      case False
      then have "length (filepath_Dir p) \<le> length q" using d length_Clean_trailing by simp
      then show ?thesis using p pdot by (simp add: dirMeasure_def)
    qed
  qed
qed

subsection \<open>Creating directories and copying the artifact\<close>

text \<open>
  \<^verbatim>\<open>os.MkdirAll\<close>: a directory that exists is left alone, a regular file in the way is an
  error, and otherwise the parent is made first and then the directory itself.
\<close>

function os_MkdirAll :: "FileSystem \<Rightarrow> string \<Rightarrow> error + FileSystem" where
  "os_MkdirAll fs path =
     (case nodes fs path of
        Some Directory \<Rightarrow> Inr fs
      | Some (RegularFile _) \<Rightarrow> Inl (PathError ''mkdir'' path)
      | None \<Rightarrow>
          if filepath_Dir path = path then Inr (os_Mkdir fs path)
          else (case os_MkdirAll fs (filepath_Dir path) of
                  Inl err \<Rightarrow> Inl err
                | Inr fs' \<Rightarrow> Inr (os_Mkdir fs' path)))"
  by pat_completeness auto
termination
  by (relation "measure (\<lambda>(fs, path). dirMeasure path)") (auto simp: Dir_measure)

declare os_MkdirAll.simps [simp del]

definition copyFile :: "FileSystem \<Rightarrow> string \<Rightarrow> string \<Rightarrow> error option \<times> FileSystem" where
  "copyFile fs src dst =
     (case os_Open fs src of
        Inl err \<Rightarrow> (Some err, fs)
      | Inr sourceFile \<Rightarrow>
          (let destDir = filepath_Dir dst in
             (case os_MkdirAll fs destDir of
                Inl err \<Rightarrow> (Some (DirsError dst err), fs)
              | Inr fs1 \<Rightarrow>
                  (case os_Create fs1 dst of
                     Inl err \<Rightarrow> (Some err, fs1)
                   | Inr fs2 \<Rightarrow>
                       (case io_Copy fs2 dst sourceFile of
                          Inl err \<Rightarrow> (Some err, fs2)
                        | Inr fs3 \<Rightarrow>
                            (case file_Sync fs3 dst of
                               Inl err \<Rightarrow> (Some err, fs3)
                             | Inr fs4 \<Rightarrow> (None, fs4)))))))"

subsection \<open>Finding the project manifest and the cargo configuration\<close>

text \<open>
  Modelled from the spec: \<^verbatim>\<open>fs.FindUp\<close> (internal/fs) is not part of the sources at hand.
  Section 4.1 of the specification: it walks upward from the handler's directory until a
  manifest file is found and fails with a not-found error if none exists up to the file
  system root. The adapter takes the directory of the returned path as the project root,
  so the result is the path of the manifest file.
\<close>

function findUpFrom :: "FileSystem \<Rightarrow> string \<Rightarrow> string \<Rightarrow> error + string" where
  "findUpFrom fs dir fileName =
     (if errIsNil (os_Stat fs (filepath_Join [dir, fileName]))
      then Inr (filepath_Join [dir, fileName])
      else if filepath_Dir dir = dir then Inl (FileNotFound fileName)
      else findUpFrom fs (filepath_Dir dir) fileName)"
  by pat_completeness auto
termination
  by (relation "measure (\<lambda>(fs, dir, fileName). dirMeasure dir)") (auto simp: Dir_measure)

declare findUpFrom.simps [simp del]

definition FindUp :: "FileSystem \<Rightarrow> string \<Rightarrow> string \<Rightarrow> error + string" where
  "FindUp fs initialPath fileName = findUpFrom fs (filepath_Dir initialPath) fileName"

function FindClosestCargoConfig :: "FileSystem \<Rightarrow> string \<Rightarrow> string option" where
  "FindClosestCargoConfig fs dir =
     (let cargoDir = filepath_Join [dir, ''.cargo''];
          found =
            (if errIsNil (os_Stat fs cargoDir) then
               (let cargoConfig = filepath_Join [cargoDir, ''config.toml''] in
                if errIsNil (os_Stat fs cargoConfig) then Some cargoConfig
                else
                  (let cargoConfig = filepath_Join [cargoDir, ''config''] in
                   if errIsNil (os_Stat fs cargoConfig) then Some cargoConfig
                   else None))
             else None)
      in case found of
           Some cargoConfig \<Rightarrow> Some cargoConfig
         | None \<Rightarrow>
             (let parentDir = filepath_Dir dir in
              if parentDir = dir then None
              else FindClosestCargoConfig fs parentDir))"
  by pat_completeness auto
termination
  by (relation "measure (\<lambda>(fs, dir). dirMeasure dir)") (auto simp: Dir_measure)

declare FindClosestCargoConfig.simps [simp del]

subsection \<open>Manifest, configuration and build properties\<close>

record CargoConfigBuild =
  TargetDir :: "string option"

record CargoConfig =
  build :: CargoConfigBuild

record CargoTomlBin =
  Name :: string
  RequiredFeatures :: "string list"

record CargoToml =
  Bin :: "CargoTomlBin list"

record Properties =
  Architecture :: string

text \<open>
  A decoder is given the bytes and the destination and returns the destination as it
  leaves it together with its error, as \<^verbatim>\<open>json.Unmarshal(data, &v)\<close> and
  \<^verbatim>\<open>toml.Decode\<close> do: a decoder that fails may already have written part of what it
  read. The decoders themselves are parameters of the model. \<^verbatim>\<open>toml.DecodeFile\<close> reads
  the file and decodes its bytes; when the file cannot be read the destination is as it
  was.
\<close>

type_synonym 'a decoder = "string \<Rightarrow> 'a \<Rightarrow> 'a \<times> error option"

definition toml_DecodeFile :: "'a decoder \<Rightarrow> FileSystem \<Rightarrow> string \<Rightarrow> 'a \<Rightarrow> 'a \<times> error option" where
  "toml_DecodeFile decode fs path v =
     (case nodes fs path of
        Some (RegularFile bytes) \<Rightarrow> decode bytes v
      | _ \<Rightarrow> (v, Some (PathError ''open'' path)))"

subsection \<open>Commands, the host and the adapter state\<close>

text \<open>
  Modelled from the spec: \<^verbatim>\<open>process.Command\<close> (pkg/process) is not part of the sources at
  hand; by section 6 it makes the external command from the program name and its
  arguments. \<open>cmd_Args\<close> holds the program name followed by the arguments, as
  \<^verbatim>\<open>cmd.Args\<close> does.
\<close>

record Cmd =
  cmd_Args :: "string list"
  cmd_Dir :: string
  cmd_Env :: "string list"

definition process_Command :: "string \<Rightarrow> string list \<Rightarrow> Cmd" where
  "process_Command name args = \<lparr>cmd_Args = name # args, cmd_Dir = [], cmd_Env = []\<rparr>"

text \<open>
  What the adapter asks of child processes: \<^verbatim>\<open>cmd.CombinedOutput()\<close> runs a command to
  its end with both output streams captured into one buffer; \<^verbatim>\<open>cmd.Start()\<close> only
  spawns it.
\<close>

datatype ProcessCall = CombinedOutput Cmd | Start Cmd

record Sys =
  files :: FileSystem
  calls :: "ProcessCall list"

text \<open>
  The host: the decoders, the environment and working directory of the orchestrator
  process, and what running a command to its end does (its captured output, its error
  and the file system it leaves).
\<close>

record Host =
  json_Unmarshal :: "Properties decoder"
  decodeCargoToml :: "CargoToml decoder"
  decodeCargoConfig :: "CargoConfig decoder"
  os_Environ :: "string list"
  os_Getwd :: "error + string"
  runToEnd :: "Cmd \<Rightarrow> FileSystem \<Rightarrow> (string \<times> error option) \<times> FileSystem"
  startErr :: "Cmd \<Rightarrow> error option"

record Runtime =
  directories :: "string \<rightharpoonup> string"

definition New :: Runtime where
  "New = \<lparr>directories = Map.empty\<rparr>"

text \<open>
  Modelled from the spec: the declarations of \<^verbatim>\<open>runtime.BuildInput\<close>,
  \<^verbatim>\<open>runtime.BuildOutput\<close> and \<^verbatim>\<open>runtime.RunInput\<close> (pkg/runtime) are not part of the
  sources at hand. By section 3 a build request carries the function identifier, the
  handler path, the properties blob, the development-mode flag and the target output
  directory (\<open>OutDir\<close>, what \<^verbatim>\<open>input.Out()\<close> returns).
\<close>

record BuildInput =
  FunctionID :: string
  Handler :: string
  Properties :: string
  Dev :: bool
  OutDir :: string

record BuildOutput =
  out_Handler :: string
  out_Sourcemaps :: "string list"
  out_Errors :: "string list"
  out_Out :: string


subsection \<open>Build\<close>

text \<open>
  \<^verbatim>\<open>Build\<close> holds the adapter's mutex from start to end; calls are modelled one after
  the other. Log lines are left out. The errors of \<^verbatim>\<open>json.Unmarshal\<close>, of both
  \<^verbatim>\<open>toml.DecodeFile\<close> calls, of \<^verbatim>\<open>copyFile\<close> and of \<^verbatim>\<open>filepath.Abs\<close> are dropped, as
  the code drops them: \<^verbatim>\<open>Build\<close> goes on with what the call left behind.
\<close>

text \<open>The loop over \<^verbatim>\<open>cargoToml.Bin\<close>, which stops at the first entry named like the handler.\<close>

fun requiredFeaturesLoop :: "CargoTomlBin list \<Rightarrow> string \<Rightarrow> string list \<Rightarrow> string list" where
  "requiredFeaturesLoop [] handlerName requiredFeatures = requiredFeatures"
| "requiredFeaturesLoop (v # vs) handlerName requiredFeatures =
     (if Name v = handlerName then RequiredFeatures v
      else requiredFeaturesLoop vs handlerName requiredFeatures)"

definition Build :: "Host \<Rightarrow> BuildInput \<Rightarrow> Runtime \<times> Sys \<Rightarrow> (error + BuildOutput) \<times> Runtime \<times> Sys" where
  "Build host input st =
     (case st of (r, sys) \<Rightarrow>
       (let properties = fst (json_Unmarshal host (Properties input) \<lparr>Architecture = []\<rparr>);
            handlerName = strings_TrimSuffix (filepath_Base (Handler input))
                                             (filepath_Ext (Handler input))
        in (case FindUp (files sys) (Handler input) ''Cargo.toml'' of
             Inl err \<Rightarrow> (Inl err, r, sys)
           | Inr cargoTomlFile \<Rightarrow>
              (let root = filepath_Dir cargoTomlFile;
                   out = OutDir input;
                   cargoToml = fst (toml_DecodeFile (decodeCargoToml host) (files sys) cargoTomlFile
                                      \<lparr>Bin = []\<rparr>);
                   requiredFeatures = requiredFeaturesLoop (Bin cargoToml) handlerName [];
                   cargoConfigFile = FindClosestCargoConfig (files sys) root;
                   cargoConfig = (case cargoConfigFile of
                                    None \<Rightarrow> \<lparr>build = \<lparr>TargetDir = None\<rparr>\<rparr>
                                  | Some f \<Rightarrow>
                                      fst (toml_DecodeFile (decodeCargoConfig host) (files sys) f
                                             \<lparr>build = \<lparr>TargetDir = None\<rparr>\<rparr>));
                   args = [''lambda'', ''build'', ''--bin'', handlerName];
                   args = (if \<not> Dev input then args @ [''--release''] else args);
                   args = (if Architecture properties = ''arm_64'' then args @ [''--arm64''] else args);
                   args = args @ [''--no-default-features''];
                   args = (if length requiredFeatures > 0
                           then args @ [''--features'', strings_Join requiredFeatures '','']
                           else args);
                   cmd = (process_Command ''cargo'' args)\<lparr>cmd_Dir := root, cmd_Env := os_Environ host\<rparr>;
                   ran = runToEnd host cmd (files sys);
                   output = fst (fst ran);
                   sys1 = \<lparr>files = snd ran, calls = calls sys @ [CombinedOutput cmd]\<rparr>
               in (case snd (fst ran) of
                    Some _ \<Rightarrow>
                      (Inr \<lparr>out_Handler = [], out_Sourcemaps = [], out_Errors = [output], out_Out = []\<rparr>,
                       r, sys1)
                  | None \<Rightarrow>
                     (let targetPath = (case TargetDir (build cargoConfig) of
                                          Some targetDir \<Rightarrow> filepath_Join [root, targetDir]
                                        | None \<Rightarrow> filepath_Join [root, ''target'']);
                          src = filepath_Join [targetPath, ''lambda'', handlerName, ''bootstrap''];
                          dst = filepath_Join [out, ''bootstrap''];
                          copied = copyFile (files sys1) src dst;
                          absRoot = fst (filepath_Abs (os_Getwd host) root)
                      in (Inr \<lparr>out_Handler = ''bootstrap'', out_Sourcemaps = [], out_Errors = [],
                               out_Out = out\<rparr>,
                          r\<lparr>directories := (directories r)(FunctionID input \<mapsto> absRoot)\<rparr>,
                          sys1\<lparr>files := snd copied\<rparr>)))))))"

subsection \<open>Run\<close>

text \<open>
  The two pipes of a worker are named after the calls that make them,
  \<^verbatim>\<open>cmd.StdoutPipe()\<close> and \<^verbatim>\<open>cmd.StderrPipe()\<close>, both made before the process starts.
  \<^verbatim>\<open>Run\<close> drops the errors of the pipe calls and of \<^verbatim>\<open>cmd.Start()\<close>.
\<close>

datatype ReadCloser = StdoutPipe Cmd | StderrPipe Cmd

record Worker =
  stdout :: ReadCloser
  stderr :: ReadCloser
  cmd :: Cmd


subsection \<open>ShouldRebuild\<close>

definition ShouldRebuild :: "Runtime \<Rightarrow> string \<Rightarrow> string \<Rightarrow> bool" where
  "ShouldRebuild r functionID file =
     (if \<not> strings_HasSuffix file ''.rs'' then False
      else case directories r functionID of
             None \<Rightarrow> False
           | Some match \<Rightarrow>
               (case filepath_Rel match file of
                  Inl err \<Rightarrow> False
                | Inr rel \<Rightarrow> \<not> strings_HasPrefix rel ''..''))"

subsection \<open>The directories of an upward walk, and the config file a directory holds\<close>

text \<open>
  \<open>ancestors dir\<close> lists the directories an upward walk from \<open>dir\<close> visits, nearest
  first; \<open>configFileIn fs dir\<close> is the config file found directly under the
  \<^verbatim>\<open>.cargo\<close> subdirectory of \<open>dir\<close>, \<^verbatim>\<open>config.toml\<close> before \<^verbatim>\<open>config\<close>.
\<close>

function ancestors :: "string \<Rightarrow> string list" where
  "ancestors dir = dir # (if filepath_Dir dir = dir then [] else ancestors (filepath_Dir dir))"
  by pat_completeness auto
termination
  by (relation "measure dirMeasure") (auto simp: Dir_measure)

declare ancestors.simps [simp del]

definition configFileIn :: "FileSystem \<Rightarrow> string \<Rightarrow> string option" where
  "configFileIn fs dir =
     (let cargoDir = filepath_Join [dir, ''.cargo''] in
      if errIsNil (os_Stat fs cargoDir) \<and>
         errIsNil (os_Stat fs (filepath_Join [cargoDir, ''config.toml'']))
      then Some (filepath_Join [cargoDir, ''config.toml''])
      else if errIsNil (os_Stat fs cargoDir) \<and>
              errIsNil (os_Stat fs (filepath_Join [cargoDir, ''config'']))
      then Some (filepath_Join [cargoDir, ''config''])
      else None)"

text \<open>
  The search as the specification words it: the first directory of the walk that contains
  the \<^verbatim>\<open>.cargo\<close> subdirectory is the one selected, whatever it holds.
\<close>

definition findConfigOverride_spec :: "FileSystem \<Rightarrow> string \<Rightarrow> string option" where
  "findConfigOverride_spec fs projectRoot =
     (case find (\<lambda>d. errIsNil (os_Stat fs (filepath_Join [d, ''.cargo'']))) (ancestors projectRoot) of
        None \<Rightarrow> None
      | Some d \<Rightarrow> configFileIn fs d)"

text \<open>A project in \<^verbatim>\<open>/a/b\<close> with an empty \<^verbatim>\<open>.cargo\<close> directory, under a
  directory \<^verbatim>\<open>/a\<close> whose \<^verbatim>\<open>.cargo\<close> directory holds \<^verbatim>\<open>config.toml\<close>.\<close>

definition fsNested :: FileSystem where
  "fsNested = \<lparr>nodes = [''/a/b/.cargo'' \<mapsto> Directory, ''/a/.cargo'' \<mapsto> Directory,
                         ''/a/.cargo/config.toml'' \<mapsto> RegularFile []], synced = {}\<rparr>"

subsection \<open>The words of the specification\<close>

text \<open>
  The base file name of a path is its last element: what follows the last separator,
  separators at the very end of the path set aside. A name with its extension stripped is
  what precedes its last dot (all of it when it has no dot). A handler path names a file
  when it is not empty and does not end in a separator.
\<close>

definition lastElement :: "string \<Rightarrow> string" where
  "lastElement path =
     rev (takeWhile (\<lambda>c. c \<noteq> CHR ''/'') (dropWhile (\<lambda>c. c = CHR ''/'') (rev path)))"

definition stripExtension :: "string \<Rightarrow> string" where
  "stripExtension name =
     (if CHR ''.'' \<in> set name then rev (tl (dropWhile (\<lambda>c. c \<noteq> CHR ''.'') (rev name)))
      else name)"

definition artifactName :: "string \<Rightarrow> string" where
  "artifactName handler = stripExtension (lastElement handler)"

definition namesFile :: "string \<Rightarrow> bool" where
  "namesFile handler = (handler \<noteq> [] \<and> last handler \<noteq> CHR ''/'')"

text \<open>Features joined by commas, in their order.\<close>

fun commaJoined :: "string list \<Rightarrow> string" where
  "commaJoined [] = []"
| "commaJoined (x # xs) = x @ concat (map (\<lambda>y. CHR '','' # y) xs)"

text \<open>
  The requested architecture is the \<^verbatim>\<open>architecture\<close> field the decoder leaves for the
  properties blob. The manifest is keyed by artifact name; the required features of an
  artifact are those of its entry, none when it has no entry. The override is the
  \<^verbatim>\<open>target-dir\<close> the decoder leaves for the nearest cargo configuration, absent when
  there is no configuration file.
\<close>

definition requestedArchitecture :: "Host \<Rightarrow> BuildInput \<Rightarrow> string" where
  "requestedArchitecture host input =
     Architecture (fst (json_Unmarshal host (Properties input) \<lparr>Architecture = []\<rparr>))"

definition manifestFeatures :: "Host \<Rightarrow> FileSystem \<Rightarrow> string \<Rightarrow> string \<Rightarrow> string list" where
  "manifestFeatures host fs cargoTomlFile name =
     (case map_of (map (\<lambda>v. (Name v, RequiredFeatures v))
                       (Bin (fst (toml_DecodeFile (decodeCargoToml host) fs cargoTomlFile
                                    \<lparr>Bin = []\<rparr>))))
                  name of
        None \<Rightarrow> []
      | Some features \<Rightarrow> features)"

definition overrideTargetDir :: "Host \<Rightarrow> FileSystem \<Rightarrow> string \<Rightarrow> string option" where
  "overrideTargetDir host fs root =
     (case FindClosestCargoConfig fs root of
        None \<Rightarrow> None
      | Some f \<Rightarrow> TargetDir (build (fst (toml_DecodeFile (decodeCargoConfig host) fs f
                                           \<lparr>build = \<lparr>TargetDir = None\<rparr>\<rparr>))))"

text \<open>
  The command \<^verbatim>\<open>Build\<close> runs and the path it copies from, for every request; the name
  in them is the one \<^verbatim>\<open>Build\<close> computes from the handler path.
\<close>

definition handlerName :: "BuildInput \<Rightarrow> string" where
  "handlerName input =
     strings_TrimSuffix (filepath_Base (Handler input)) (filepath_Ext (Handler input))"

definition cargoCommand :: "Host \<Rightarrow> BuildInput \<Rightarrow> FileSystem \<Rightarrow> string \<Rightarrow> Cmd" where
  "cargoCommand host input fs cargoTomlFile =
     \<lparr>cmd_Args =
        [''cargo'', ''lambda'', ''build'', ''--bin'', handlerName input] @
        (if Dev input then [] else [''--release'']) @
        (if requestedArchitecture host input = ''arm_64'' then [''--arm64''] else []) @
        [''--no-default-features''] @
        (if manifestFeatures host fs cargoTomlFile (handlerName input) = [] then []
         else [''--features'',
               strings_Join (manifestFeatures host fs cargoTomlFile (handlerName input)) '','']),
      cmd_Dir = filepath_Dir cargoTomlFile,
      cmd_Env = os_Environ host\<rparr>"

definition artifactPath :: "Host \<Rightarrow> BuildInput \<Rightarrow> FileSystem \<Rightarrow> string \<Rightarrow> string" where
  "artifactPath host input fs cargoTomlFile =
     filepath_Join
       [case overrideTargetDir host fs (filepath_Dir cargoTomlFile) of
          Some targetDir \<Rightarrow> filepath_Join [filepath_Dir cargoTomlFile, targetDir]
        | None \<Rightarrow> filepath_Join [filepath_Dir cargoTomlFile, ''target''],
        ''lambda'', handlerName input, ''bootstrap'']"

text \<open>The same host with the error of every decoder wiped and what it wrote kept.\<close>

definition withoutDecodeErrors :: "Host \<Rightarrow> Host" where
  "withoutDecodeErrors host =
     host\<lparr>json_Unmarshal := (\<lambda>b v. (fst (json_Unmarshal host b v), None)),
          decodeCargoToml := (\<lambda>b v. (fst (decodeCargoToml host b v), None)),
          decodeCargoConfig := (\<lambda>b v. (fst (decodeCargoConfig host b v), None))\<rparr>"


text \<open>
  The decoders store nothing: each leaves the zero value it was given, for the properties
  blob of the request, for the manifest, and for the cargo configuration nearest to the
  project root if there is one.
\<close>

definition storesNothing :: "Host \<Rightarrow> BuildInput \<Rightarrow> FileSystem \<Rightarrow> string \<Rightarrow> bool" where
  "storesNothing host input fs cargoTomlFile =
     (fst (json_Unmarshal host (Properties input) \<lparr>Architecture = []\<rparr>) = \<lparr>Architecture = []\<rparr> \<and>
      fst (toml_DecodeFile (decodeCargoToml host) fs cargoTomlFile \<lparr>Bin = []\<rparr>) = \<lparr>Bin = []\<rparr> \<and>
      (case FindClosestCargoConfig fs (filepath_Dir cargoTomlFile) of
         None \<Rightarrow> True
       | Some f \<Rightarrow> fst (toml_DecodeFile (decodeCargoConfig host) fs f \<lparr>build = \<lparr>TargetDir = None\<rparr>\<rparr>)
                     = \<lparr>build = \<lparr>TargetDir = None\<rparr>\<rparr>))"

text \<open>
  The directories that are missing on the way up from a directory, nearest first, up to
  the first path that exists; they can be made when that path, if there is one, is a
  directory.
\<close>

definition missingDirs :: "FileSystem \<Rightarrow> string \<Rightarrow> string list" where
  "missingDirs fs dir = takeWhile (\<lambda>d. nodes fs d = None) (ancestors dir)"

definition dirsCanBeMade :: "FileSystem \<Rightarrow> string \<Rightarrow> bool" where
  "dirsCanBeMade fs dir =
     (case dropWhile (\<lambda>d. nodes fs d = None) (ancestors dir) of
        [] \<Rightarrow> True
      | d # _ \<Rightarrow> nodes fs d = Some Directory)"

subsection \<open>A project on disk\<close>

text \<open>
  The project \<^verbatim>\<open>/p\<close> has a manifest and a cargo configuration; the handler is
  \<^verbatim>\<open>/p/src/h.rs\<close>. On \<open>hostBuilds\<close> the manifest bytes decode to two binaries,
  \<^verbatim>\<open>g\<close> with feature \<^verbatim>\<open>x\<close> and \<^verbatim>\<open>h\<close> with features \<^verbatim>\<open>a\<close> and \<^verbatim>\<open>b\<close>, the
  configuration sets \<^verbatim>\<open>target-dir\<close> to \<^verbatim>\<open>out\<close>, the properties blob asks for
  \<^verbatim>\<open>arm_64\<close>, and cargo succeeds and leaves the binary under \<^verbatim>\<open>/p/out\<close>. On
  \<open>hostFails\<close> cargo exits with an error instead.
\<close>

definition fsProject :: FileSystem where
  "fsProject = \<lparr>nodes = [''/p/Cargo.toml'' \<mapsto> RegularFile ''m'', ''/p/.cargo'' \<mapsto> Directory,
                          ''/p/.cargo/config.toml'' \<mapsto> RegularFile ''c''],
                 synced = {}\<rparr>"

definition fsEmpty :: FileSystem where
  "fsEmpty = \<lparr>nodes = Map.empty, synced = {}\<rparr>"

definition hostBuilds :: Host where
  "hostBuilds =
     \<lparr>json_Unmarshal = (\<lambda>b v. if b = ''arm'' then (v\<lparr>Architecture := ''arm_64''\<rparr>, None)
                              else (v, Some DecodeError)),
      decodeCargoToml = (\<lambda>b v. if b = ''m''
                                then (v\<lparr>Bin := [\<lparr>Name = ''g'', RequiredFeatures = [''x'']\<rparr>,
                                                 \<lparr>Name = ''h'', RequiredFeatures = [''a'', ''b'']\<rparr>]\<rparr>,
                                      None)
                                else (v, Some DecodeError)),
      decodeCargoConfig = (\<lambda>b v. if b = ''c'' then (v\<lparr>build := \<lparr>TargetDir = Some ''out''\<rparr>\<rparr>, None)
                                  else (v, Some DecodeError)),
      os_Environ = [''PATH=/bin''],
      os_Getwd = Inr ''/w'',
      runToEnd = (\<lambda>c fs. (([], None),
                    fs\<lparr>nodes := (nodes fs)(''/p/out/lambda/h/bootstrap'' \<mapsto> RegularFile ''ELF'')\<rparr>)),
      startErr = (\<lambda>c. None)\<rparr>"

definition hostFails :: Host where
  "hostFails = hostBuilds\<lparr>runToEnd := (\<lambda>c fs. ((''error: build failed'', Some ExitError), fs))\<rparr>"

definition inputDemo :: BuildInput where
  "inputDemo = \<lparr>FunctionID = ''fn'', Handler = ''/p/src/h.rs'', Properties = ''arm'', Dev = False,
                 OutDir = ''/o''\<rparr>"

text \<open>The same request with a separator at the end of the handler path.\<close>

definition inputSlash :: BuildInput where
  "inputSlash = inputDemo\<lparr>Handler := ''/p/src/h.rs/''\<rparr>"

text \<open>
  On \<open>hostMalformed\<close> every decoder rejects its input before it has written anything (the
  input is not well-formed JSON or TOML), and cargo leaves the binary under
  \<^verbatim>\<open>/p/target\<close>.
\<close>

definition hostMalformed :: Host where
  "hostMalformed =
     hostBuilds\<lparr>json_Unmarshal := (\<lambda>b v. (v, Some DecodeError)),
                decodeCargoToml := (\<lambda>b v. (v, Some DecodeError)),
                decodeCargoConfig := (\<lambda>b v. (v, Some DecodeError)),
                runToEnd := (\<lambda>c fs. (([], None),
                    fs\<lparr>nodes := (nodes fs)(''/p/target/lambda/h/bootstrap'' \<mapsto> RegularFile ''ELF'')\<rparr>))\<rparr>"

text \<open>
  On \<open>hostPartial\<close> every decoder rejects its input after it has written part of it: the
  blob names the architecture \<^verbatim>\<open>arm_64\<close> and then gives the same key a number; the
  manifest has the binary \<^verbatim>\<open>h\<close> with features \<^verbatim>\<open>a\<close> and \<^verbatim>\<open>b\<close> and then a binary
  whose name is a number; the configuration gives \<^verbatim>\<open>target-dir\<close> a number, for which
  the decoder has already made the empty string. Cargo leaves the binary under \<^verbatim>\<open>/p\<close>.
\<close>

definition hostPartial :: Host where
  "hostPartial =
     hostBuilds\<lparr>json_Unmarshal := (\<lambda>b v. (v\<lparr>Architecture := ''arm_64''\<rparr>, Some DecodeError)),
                decodeCargoToml :=
                  (\<lambda>b v. (v\<lparr>Bin := [\<lparr>Name = ''h'', RequiredFeatures = [''a'', ''b'']\<rparr>,
                                     \<lparr>Name = [], RequiredFeatures = []\<rparr>]\<rparr>,
                           Some DecodeError)),
                decodeCargoConfig := (\<lambda>b v. (v\<lparr>build := \<lparr>TargetDir = Some []\<rparr>\<rparr>, Some DecodeError)),
                runToEnd := (\<lambda>c fs. (([], None),
                    fs\<lparr>nodes := (nodes fs)(''/p/lambda/h/bootstrap'' \<mapsto> RegularFile ''ELF'')\<rparr>))\<rparr>"




subsection \<open>Logs\<close>

text \<open>
  \<^verbatim>\<open>Logs\<close> makes a pipe and starts three goroutines: two run \<^verbatim>\<open>io.Copy\<close> from the
  worker's standard output and standard error into the pipe's writer and call
  \<^verbatim>\<open>wg.Done()\<close> when the copy returns; the third waits for the wait group and closes the
  writer. The state holds the bytes the child has written to each stream that are not yet
  copied, the bytes written into the pipe so far, which copy loops are still running, the
  counter of the wait group and whether the writer is closed. A step is one move of one
  goroutine: a copy loop moves a chunk from the front of its stream to the pipe (writes to
  a pipe do not interleave within a chunk) or meets the end of its stream and returns; the
  third goroutine closes the writer once the counter is zero. The child's streams end
  after the given bytes, and reads and writes do not fail.
\<close>

record LogsState =
  stdoutRest :: string
  stderrRest :: string
  pipe :: string
  copying1 :: bool
  copying2 :: bool
  wg :: nat
  writerClosed :: bool

definition Logs :: "string \<Rightarrow> string \<Rightarrow> LogsState" where
  "Logs out err =
     \<lparr>stdoutRest = out, stderrRest = err, pipe = [], copying1 = True, copying2 = True,
      wg = 2, writerClosed = False\<rparr>"

inductive step :: "LogsState \<Rightarrow> LogsState \<Rightarrow> bool" where
  copy1: "copying1 s \<Longrightarrow> stdoutRest s = chunk @ rest \<Longrightarrow> chunk \<noteq> [] \<Longrightarrow>
          step s (s\<lparr>stdoutRest := rest, pipe := pipe s @ chunk\<rparr>)"
| done1: "copying1 s \<Longrightarrow> stdoutRest s = [] \<Longrightarrow>
          step s (s\<lparr>copying1 := False, wg := wg s - 1\<rparr>)"
| copy2: "copying2 s \<Longrightarrow> stderrRest s = chunk @ rest \<Longrightarrow> chunk \<noteq> [] \<Longrightarrow>
          step s (s\<lparr>stderrRest := rest, pipe := pipe s @ chunk\<rparr>)"
| done2: "copying2 s \<Longrightarrow> stderrRest s = [] \<Longrightarrow>
          step s (s\<lparr>copying2 := False, wg := wg s - 1\<rparr>)"
| close: "wg s = 0 \<Longrightarrow> \<not> writerClosed s \<Longrightarrow>
          step s (s\<lparr>writerClosed := True\<rparr>)"

text \<open>What holds after every step: the invariant of the three goroutines.\<close>

definition merged :: "string \<Rightarrow> string \<Rightarrow> LogsState \<Rightarrow> bool" where
  "merged out err s =
     ((\<exists>a b. out = a @ stdoutRest s \<and> err = b @ stderrRest s \<and> pipe s \<in> shuffles a b) \<and>
      wg s = (if copying1 s then 1 else 0) + (if copying2 s then 1 else 0) \<and>
      (\<not> copying1 s \<longrightarrow> stdoutRest s = []) \<and>
      (\<not> copying2 s \<longrightarrow> stderrRest s = []) \<and>
      (writerClosed s \<longrightarrow> wg s = 0))"

text \<open>Every step makes this number smaller, so every run comes to rest.\<close>

definition logsMeasure :: "LogsState \<Rightarrow> nat" where
  "logsMeasure s =
     length (stdoutRest s) + length (stderrRest s) +
     (if copying1 s then 1 else 0) + (if copying2 s then 1 else 0) +
     (if writerClosed s then 0 else 1)"

text \<open>A run on \<^verbatim>\<open>ab\<close> and \<^verbatim>\<open>c\<close> ends here.\<close>

definition logsEnd :: LogsState where
  "logsEnd = \<lparr>stdoutRest = [], stderrRest = [], pipe = ''acb'', copying1 = False, copying2 = False,
              wg = 0, writerClosed = True\<rparr>"

subsection \<open>An adapter that has built a function in \<^verbatim>\<open>/root\<close>\<close>

definition rootRecorded :: Runtime where
  "rootRecorded = \<lparr>directories = [''fn'' \<mapsto> ''/root'']\<rparr>"

subsection \<open>Runtime selection\<close>

definition Match :: "string \<Rightarrow> bool" where
  "Match runtime = (runtime = ''rust'')"

section \<open>Properties\<close>

text \<open>
  C10. \<^verbatim>\<open>Match\<close> accepts the runtime identifier \<^verbatim>\<open>rust\<close> and nothing else: not
  \<^verbatim>\<open>Rust\<close>, not \<^verbatim>\<open>rust2021\<close>, not the empty string.
\<close>

theorem Match_exactly_rust:
  "Match runtime = (runtime = ''rust'') \<and>
   \<not> Match ''Rust'' \<and> \<not> Match ''rust2021'' \<and> \<not> Match ''''"
  by (simp add: Match_def)


subsection \<open>Evaluating paths\<close>

lemmas path_defs = elements_def filepath_Join_def filepath_Clean_def filepath_Dir_def cleanStep_def IsPathSeparator_def

lemma FindClosestCargoConfig_unfold:
  "FindClosestCargoConfig fs dir =
     (case configFileIn fs dir of
        Some f \<Rightarrow> Some f
      | None \<Rightarrow> if filepath_Dir dir = dir then None else FindClosestCargoConfig fs (filepath_Dir dir))"
  by (subst FindClosestCargoConfig.simps) (simp add: configFileIn_def Let_def)

lemma nodes_fsNested: "nodes fsNested = [''/a/b/.cargo'' \<mapsto> Directory, ''/a/.cargo'' \<mapsto> Directory,
                         ''/a/.cargo/config.toml'' \<mapsto> RegularFile []]"
  by (simp add: fsNested_def)

lemma ancestors_a_b: "ancestors ''/a/b'' = [''/a/b'', ''/a'', ''/'']"
  by (simp add: ancestors.simps[of "''/a/b''"] ancestors.simps[of "''/a''"] ancestors.simps[of "''/''"] path_defs)

lemma configFileIn_a_b: "configFileIn fsNested ''/a/b'' = None"
  by (simp add: configFileIn_def Let_def nodes_fsNested os_Stat_def errIsNil_def path_defs)

lemma configFileIn_a: "configFileIn fsNested ''/a'' = Some ''/a/.cargo/config.toml''"
  by (simp add: configFileIn_def Let_def nodes_fsNested os_Stat_def errIsNil_def path_defs)

text \<open>
  C2, as amended. From every starting directory the search returns the config file of the
  nearest directory of the upward walk (the starting directory included) whose
  \<^verbatim>\<open>.cargo\<close> subdirectory holds \<^verbatim>\<open>config.toml\<close> or \<^verbatim>\<open>config\<close>, the former
  preferred; a directory whose \<^verbatim>\<open>.cargo\<close> subdirectory holds neither file is passed
  over; when no directory up to the root holds a config file, nothing is returned.
\<close>

theorem FindClosestCargoConfig_first_config_file:
  "FindClosestCargoConfig fs dir =
     (case find (\<lambda>d. configFileIn fs d \<noteq> None) (ancestors dir) of
        None \<Rightarrow> None
      | Some d \<Rightarrow> configFileIn fs d)"
proof (induction "dirMeasure dir" arbitrary: dir rule: less_induct)
  case less
  show ?case
  proof (cases "configFileIn fs dir")
    case (Some f)
    then show ?thesis
      by (subst FindClosestCargoConfig_unfold, subst ancestors.simps) simp
  next
    case None
    note nothing_here = None
    show ?thesis
    proof (cases "filepath_Dir dir = dir")
      case True
      with nothing_here show ?thesis
        by (subst FindClosestCargoConfig_unfold, subst ancestors.simps) simp
    next
      case False
      then have "dirMeasure (filepath_Dir dir) < dirMeasure dir" by (rule Dir_measure)
      then have above: "FindClosestCargoConfig fs (filepath_Dir dir) =
         (case find (\<lambda>d. configFileIn fs d \<noteq> None) (ancestors (filepath_Dir dir)) of
            None \<Rightarrow> None | Some d \<Rightarrow> configFileIn fs d)"
        by (rule less)
      show ?thesis
        by (subst FindClosestCargoConfig_unfold, subst ancestors.simps)
           (simp add: nothing_here False above)
    qed
  qed
qed

text \<open>
  C2, as stated, fails: in \<open>fsNested\<close> the first directory that contains the
  \<^verbatim>\<open>.cargo\<close> subdirectory is \<^verbatim>\<open>/a/b\<close>, and the walk goes on past it to
  \<^verbatim>\<open>/a\<close>, where the search as specified returns nothing.
\<close>

theorem walk_continues_past_empty_cargo_dir:
  "errIsNil (os_Stat fsNested (filepath_Join [''/a/b'', ''.cargo''])) \<and>
   FindClosestCargoConfig fsNested ''/a/b'' = Some ''/a/.cargo/config.toml'' \<and>
   findConfigOverride_spec fsNested ''/a/b'' = None"
proof -
  have d: "filepath_Dir ''/a/b'' = ''/a''" by (simp add: path_defs)
  have 1: "errIsNil (os_Stat fsNested (filepath_Join [''/a/b'', ''.cargo'']))"
    by (simp add: nodes_fsNested os_Stat_def errIsNil_def path_defs)
  have 2: "FindClosestCargoConfig fsNested ''/a/b'' = Some ''/a/.cargo/config.toml''"
    by (subst FindClosestCargoConfig_unfold, simp add: configFileIn_a_b d, subst FindClosestCargoConfig_unfold, simp add: configFileIn_a)
  have 3: "findConfigOverride_spec fsNested ''/a/b'' = None"
    using 1 by (simp add: findConfigOverride_spec_def ancestors_a_b configFileIn_a_b)
  from 1 2 3 show ?thesis by simp
qed

subsection \<open>Extensions\<close>

text \<open>
  For a handler path that does not end in a separator, the extension of the path is the
  extension of its base name; and a path has the extension \<^verbatim>\<open>.rs\<close> exactly when it
  ends in \<^verbatim>\<open>.rs\<close>, which is the test \<^verbatim>\<open>ShouldRebuild\<close> makes.
\<close>

lemma extScan_takeWhile:
  "extScan acc (takeWhile (\<lambda>c. \<not> IsPathSeparator c) xs) = extScan acc xs"
  by (induction xs arbitrary: acc) simp_all

lemma Ext_Base:
  assumes "path \<noteq> []" and "\<not> IsPathSeparator (last path)"
  shows "filepath_Ext (filepath_Base path) = filepath_Ext path"
proof -
  from assms obtain c cs where r: "rev path = c # cs" and c: "\<not> IsPathSeparator c"
    by (cases path rule: rev_cases) auto
  have "path = rev (c # cs)" using r by (simp add: rev_swap)
  then have s: "rev (dropWhile IsPathSeparator (rev path)) = path"
    using c by simp
  have t: "takeWhile (\<lambda>c. \<not> IsPathSeparator c) (rev path) \<noteq> []"
    using r c by simp
  have "filepath_Base path = rev (takeWhile (\<lambda>c. \<not> IsPathSeparator c) (rev path))"
    using assms(1) t by (simp add: filepath_Base_def Let_def s)
  then show ?thesis by (simp add: filepath_Ext_def extScan_takeWhile)
qed

lemma extScan_result:
  "extScan acc xs = res \<Longrightarrow> res \<noteq> [] \<Longrightarrow>
   \<exists>p q. xs = p @ CHR ''.'' # q \<and> res = CHR ''.'' # rev p @ acc"
proof (induction xs arbitrary: acc)
  case Nil
  then show ?case by simp
next
  case (Cons c cs)
  show ?case
  proof (cases "IsPathSeparator c \<or> c = CHR ''.''")
    case True
    with Cons.prems show ?thesis by (auto split: if_splits)
  next
    case False
    with Cons.prems have "extScan (c # acc) cs = res" by simp
    from Cons.IH[OF this Cons.prems(2)] obtain p q where
      "cs = p @ CHR ''.'' # q" "res = CHR ''.'' # rev p @ c # acc" by auto
    then have "c # cs = (c # p) @ CHR ''.'' # q \<and> res = CHR ''.'' # rev (c # p) @ acc" by simp
    then show ?thesis by blast
  qed
qed

lemma Ext_rs_iff: "filepath_Ext file = ''.rs'' \<longleftrightarrow> strings_HasSuffix file ''.rs''"
proof
  assume "filepath_Ext file = ''.rs''"
  then have "extScan [] (rev file) = ''.rs''" by (simp add: filepath_Ext_def)
  from extScan_result[OF this] obtain p q where
    pq: "rev file = p @ CHR ''.'' # q" "''.rs'' = CHR ''.'' # rev p @ []" by auto
  from pq(2) have "rev p = ''rs''" by simp
  then have "p = ''sr''" by (simp add: rev_swap)
  with pq(1) have "rev file = ''sr.'' @ q" by simp
  then have "rev (rev file) = rev (''sr.'' @ q)" by (rule arg_cong)
  then have "file = rev q @ ''.rs''" by simp
  then show "strings_HasSuffix file ''.rs''" by (simp add: strings_HasSuffix_def)
next
  assume "strings_HasSuffix file ''.rs''"
  then have "drop (length file - length ''.rs'') file = ''.rs''"
    by (simp only: strings_HasSuffix_def)
  then have "take (length file - length ''.rs'') file @ ''.rs'' = file"
    using append_take_drop_id[of "length file - length ''.rs''" "file"] by (simp only:)
  then obtain pre where "file = pre @ ''.rs''" by (rule that[OF sym])
  then show "filepath_Ext file = ''.rs''"
    by (simp add: filepath_Ext_def IsPathSeparator_def)
qed

subsection \<open>What Build does once the manifest is found\<close>

lemma requiredFeaturesLoop_map_of:
  "requiredFeaturesLoop bins name acc =
     (case map_of (map (\<lambda>v. (Name v, RequiredFeatures v)) bins) name of
        None \<Rightarrow> acc
      | Some features \<Rightarrow> features)"
  by (induction bins) simp_all

lemma strings_Join_comma: "strings_Join xs '','' = commaJoined xs"
  by (induction xs "'',''" rule: strings_Join.induct) simp_all

lemma Build_no_manifest:
  "FindUp (files sys) (Handler input) ''Cargo.toml'' = Inl err \<Longrightarrow>
   Build host input (r, sys) = (Inl err, r, sys)"
  by (simp add: Build_def Let_def)

lemma Build_cmd_eq:
  "(process_Command ''cargo''
      (let args = [''lambda'', ''build'', ''--bin'', handlerName input];
           args = (if \<not> Dev input then args @ [''--release''] else args);
           args = (if requestedArchitecture host input = ''arm_64'' then args @ [''--arm64''] else args);
           args = args @ [''--no-default-features''];
           args = (if length (manifestFeatures host fs f (handlerName input)) > 0
                   then args @ [''--features'', strings_Join (manifestFeatures host fs f (handlerName input)) '','']
                   else args)
       in args))\<lparr>cmd_Dir := filepath_Dir f, cmd_Env := os_Environ host\<rparr>
   = cargoCommand host input fs f"
  by (simp add: cargoCommand_def process_Command_def Let_def)

lemma Build_found:
  assumes "FindUp (files sys) (Handler input) ''Cargo.toml'' = Inr f"
  shows "Build host input (r, sys) =
     (let cmd = cargoCommand host input (files sys) f;
          ran = runToEnd host cmd (files sys);
          sys1 = \<lparr>files = snd ran, calls = calls sys @ [CombinedOutput cmd]\<rparr>
      in case snd (fst ran) of
           Some _ \<Rightarrow>
             (Inr \<lparr>out_Handler = [], out_Sourcemaps = [], out_Errors = [fst (fst ran)], out_Out = []\<rparr>,
              r, sys1)
         | None \<Rightarrow>
             (Inr \<lparr>out_Handler = ''bootstrap'', out_Sourcemaps = [], out_Errors = [], out_Out = OutDir input\<rparr>,
              r\<lparr>directories := (directories r)(FunctionID input \<mapsto>
                   fst (filepath_Abs (os_Getwd host) (filepath_Dir f)))\<rparr>,
              sys1\<lparr>files := snd (copyFile (snd ran) (artifactPath host input (files sys) f)
                                        (filepath_Join [OutDir input, ''bootstrap'']))\<rparr>))"
proof -
  have arch: "Architecture (fst (json_Unmarshal host (Properties input) \<lparr>Architecture = []\<rparr>))
                = requestedArchitecture host input"
    by (simp add: requestedArchitecture_def)
  have feats: "requiredFeaturesLoop
                 (Bin (fst (toml_DecodeFile (decodeCargoToml host) (files sys) f \<lparr>Bin = []\<rparr>)))
                 (handlerName input) []
               = manifestFeatures host (files sys) f (handlerName input)"
    by (simp add: manifestFeatures_def requiredFeaturesLoop_map_of)
  have td: "TargetDir (build (case FindClosestCargoConfig (files sys) (filepath_Dir f) of
                 None \<Rightarrow> \<lparr>build = \<lparr>TargetDir = None\<rparr>\<rparr>
               | Some g \<Rightarrow> fst (toml_DecodeFile (decodeCargoConfig host) (files sys) g
                                  \<lparr>build = \<lparr>TargetDir = None\<rparr>\<rparr>)))
             = overrideTargetDir host (files sys) (filepath_Dir f)"
    by (simp add: overrideTargetDir_def split: option.splits)
  show ?thesis
    unfolding Build_def Let_def prod.case assms sum.case
    unfolding handlerName_def[symmetric] arch feats td
    unfolding Build_cmd_eq[unfolded Let_def] artifactPath_def
    by (simp split: option.splits)
qed

lemma Build_error_iff:
  "fst (Build host input (r, sys)) = Inl err \<longleftrightarrow>
   FindUp (files sys) (Handler input) ''Cargo.toml'' = Inl err"
proof (cases "FindUp (files sys) (Handler input) ''Cargo.toml''")
  case (Inl e)
  then show ?thesis by (simp add: Build_no_manifest)
next
  case (Inr f)
  then show ?thesis
    unfolding Build_found[OF Inr] by (simp add: Let_def split: option.splits)
qed

lemma Build_calls:
  assumes "FindUp (files sys) (Handler input) ''Cargo.toml'' = Inr f"
  shows "calls (snd (snd (Build host input (r, sys)))) =
           calls sys @ [CombinedOutput (cargoCommand host input (files sys) f)]"
proof -
  define c where "c = cargoCommand host input (files sys) f"
  show ?thesis
    unfolding Build_found[OF assms] c_def[symmetric]
    by (cases "snd (fst (runToEnd host c (files sys)))") (simp_all add: Let_def)
qed

subsection \<open>The artifact name\<close>

lemma extScan_no_separator:
  "\<forall>c\<in>set xs. \<not> IsPathSeparator c \<Longrightarrow>
   extScan acc xs =
     (if CHR ''.'' \<in> set xs then CHR ''.'' # rev (takeWhile (\<lambda>c. c \<noteq> CHR ''.'') xs) @ acc else [])"
  by (induction xs arbitrary: acc) auto

lemma TrimSuffix_extension:
  assumes "\<forall>c\<in>set name. c \<noteq> CHR ''/''"
  shows "strings_TrimSuffix name (extScan [] (rev name)) = stripExtension name"
proof (cases "CHR ''.'' \<in> set name")
  case False
  then have "extScan [] (rev name) = []"
    using assms by (simp add: extScan_no_separator IsPathSeparator_def)
  then show ?thesis using False
    by (simp add: strings_TrimSuffix_def strings_HasSuffix_def stripExtension_def)
next
  case True
  let ?P = "\<lambda>c. c \<noteq> CHR ''.''"
  have ext: "extScan [] (rev name) = CHR ''.'' # rev (takeWhile ?P (rev name))"
    using assms True by (simp add: extScan_no_separator IsPathSeparator_def)
  have "dropWhile ?P (rev name) \<noteq> []" using True by simp
  then obtain rest where d: "dropWhile ?P (rev name) = CHR ''.'' # rest"
    using hd_dropWhile[of ?P "rev name"] by (cases "dropWhile ?P (rev name)") auto
  have "rev name = takeWhile ?P (rev name) @ CHR ''.'' # rest"
    using takeWhile_dropWhile_id[of ?P "rev name"] d by simp
  then have "rev (rev name) = rev (takeWhile ?P (rev name) @ CHR ''.'' # rest)" by (rule arg_cong)
  then have n: "name = rev rest @ CHR ''.'' # rev (takeWhile ?P (rev name))" by simp
  have "strings_TrimSuffix (rev rest @ CHR ''.'' # rev (takeWhile ?P (rev name)))
          (CHR ''.'' # rev (takeWhile ?P (rev name))) = rev rest"
    by (simp add: strings_TrimSuffix_def strings_HasSuffix_def)
  then have "strings_TrimSuffix name (extScan [] (rev name)) = rev rest"
    using n ext by simp
  moreover have "stripExtension name = rev rest"
    using True d by (simp add: stripExtension_def)
  ultimately show ?thesis by simp
qed

lemma handlerName_names_file:
  assumes "namesFile (Handler input)"
  shows "handlerName input = artifactName (Handler input)"
proof -
  let ?h = "Handler input"
  from assms obtain c cs where r: "rev ?h = c # cs" and c: "c \<noteq> CHR ''/''"
    by (cases ?h rule: rev_cases) (auto simp: namesFile_def)
  have same: "(\<lambda>c. \<not> IsPathSeparator c) = (\<lambda>c. c \<noteq> CHR ''/'')"
    by (simp add: IsPathSeparator_def)
  have last: "lastElement ?h = rev (takeWhile (\<lambda>c. c \<noteq> CHR ''/'') (rev ?h))"
    unfolding lastElement_def r using c by simp
  have "?h = rev (c # cs)" using r by (simp add: rev_swap)
  then have stripped: "rev (dropWhile IsPathSeparator (rev ?h)) = ?h"
    using c by (simp add: IsPathSeparator_def)
  have nonempty: "lastElement ?h \<noteq> []" unfolding last r using c by simp
  have base: "filepath_Base ?h = lastElement ?h"
    using assms nonempty
    by (simp add: filepath_Base_def Let_def stripped same last namesFile_def)
  have "filepath_Ext ?h = extScan [] (takeWhile (\<lambda>c. \<not> IsPathSeparator c) (rev ?h))"
    by (simp add: filepath_Ext_def extScan_takeWhile)
  then have ext: "filepath_Ext ?h = extScan [] (rev (lastElement ?h))"
    by (simp add: same last)
  have "\<forall>c\<in>set (lastElement ?h). c \<noteq> CHR ''/''"
    by (auto simp: last dest: set_takeWhileD)
  then show ?thesis
    by (simp add: handlerName_def artifactName_def base ext TrimSuffix_extension)
qed

subsection \<open>The manifest lookup\<close>

lemma findUpFrom_unfold:
  "findUpFrom fs dir fileName =
     (if errIsNil (os_Stat fs (filepath_Join [dir, fileName]))
      then Inr (filepath_Join [dir, fileName])
      else if filepath_Dir dir = dir then Inl (FileNotFound fileName)
      else findUpFrom fs (filepath_Dir dir) fileName)"
  by (rule findUpFrom.simps)

lemma findUpFrom_not_found:
  "(\<forall>d\<in>set (ancestors dir). \<not> errIsNil (os_Stat fs (filepath_Join [d, name]))) \<Longrightarrow>
   findUpFrom fs dir name = Inl (FileNotFound name)"
proof (induction fs dir name rule: findUpFrom.induct)
  case (1 fs dir fileName)
  have here: "\<not> errIsNil (os_Stat fs (filepath_Join [dir, fileName]))"
    using "1.prems" by (subst (asm) ancestors.simps) simp
  show ?case
  proof (cases "filepath_Dir dir = dir")
    case True
    with here show ?thesis by (subst findUpFrom_unfold) simp
  next
    case False
    have "\<forall>d\<in>set (ancestors (filepath_Dir dir)). \<not> errIsNil (os_Stat fs (filepath_Join [d, fileName]))"
      using "1.prems" False by (subst (asm) ancestors.simps) simp
    then have "findUpFrom fs (filepath_Dir dir) fileName = Inl (FileNotFound fileName)"
      using "1.IH"[OF here False] by simp
    with here False show ?thesis by (subst findUpFrom_unfold) simp
  qed
qed

subsection \<open>Paths that end in a file name\<close>

lemma ancestors_measure: "d \<in> set (ancestors q) \<Longrightarrow> dirMeasure d \<le> dirMeasure q"
proof (induction q rule: ancestors.induct)
  case (1 dir)
  show ?case
  proof (cases "filepath_Dir dir = dir")
    case True
    with "1.prems" show ?thesis by (subst (asm) ancestors.simps) simp
  next
    case False
    from "1.prems" False have "d = dir \<or> d \<in> set (ancestors (filepath_Dir dir))"
      by (subst (asm) ancestors.simps) simp
    then show ?thesis
    proof
      assume "d = dir" then show ?thesis by simp
    next
      assume "d \<in> set (ancestors (filepath_Dir dir))"
      then have "dirMeasure d \<le> dirMeasure (filepath_Dir dir)" using "1.IH"[OF False] by simp
      then show ?thesis using Dir_measure[OF False] by simp
    qed
  qed
qed

lemma Dir_of_file_name:
  assumes "p \<noteq> []" and "last p \<noteq> CHR ''/''" and "p \<noteq> ''.''"
  shows "filepath_Dir p \<noteq> p"
proof -
  let ?pre = "rev (dropWhile (\<lambda>c. \<not> IsPathSeparator c) (rev p))"
  from dirPrefix_cases[of p] show ?thesis
  proof (elim disjE conjE exE)
    assume e: "?pre = []"
    have "filepath_Dir p = ''.''" unfolding filepath_Dir_def e by (rule Clean_empty)
    with assms show ?thesis by simp
  next
    fix q r assume p: "p = q @ ''/'' @ r" and pre: "?pre = q @ ''/''"
    have d: "filepath_Dir p = filepath_Clean (q @ ''/'')" using pre by (simp add: filepath_Dir_def)
    have r: "r \<noteq> []" using assms(2) p by auto
    show ?thesis
    proof (cases "q = []")
      case True
      with d have "filepath_Dir p = ''/''" by simp
      then show ?thesis using p True r by auto
    next
      case False
      then have "length (filepath_Dir p) \<le> length q" using d length_Clean_trailing by simp
      then show ?thesis using p by auto
    qed
  qed
qed

lemma file_not_above_its_directory:
  assumes "p \<noteq> []" and "last p \<noteq> CHR ''/''" and "p \<noteq> ''.''"
  shows "p \<notin> set (ancestors (filepath_Dir p))"
proof
  assume "p \<in> set (ancestors (filepath_Dir p))"
  then have "dirMeasure p \<le> dirMeasure (filepath_Dir p)" by (rule ancestors_measure)
  moreover have "dirMeasure (filepath_Dir p) < dirMeasure p"
    using Dir_of_file_name[OF assms] by (rule Dir_measure)
  ultimately show False by simp
qed







subsection \<open>Making directories and copying\<close>

lemma os_MkdirAll_unfold:
  "os_MkdirAll fs path =
     (case nodes fs path of
        Some Directory \<Rightarrow> Inr fs
      | Some (RegularFile _) \<Rightarrow> Inl (PathError ''mkdir'' path)
      | None \<Rightarrow>
          if filepath_Dir path = path then Inr (os_Mkdir fs path)
          else (case os_MkdirAll fs (filepath_Dir path) of
                  Inl err \<Rightarrow> Inl err
                | Inr fs' \<Rightarrow> Inr (os_Mkdir fs' path)))"
  by (rule os_MkdirAll.simps)

lemma missingDirs_unfold:
  "missingDirs fs dir =
     (if nodes fs dir = None
      then dir # (if filepath_Dir dir = dir then [] else missingDirs fs (filepath_Dir dir))
      else [])"
  unfolding missingDirs_def by (subst ancestors.simps) simp

lemma dirsCanBeMade_unfold:
  "dirsCanBeMade fs dir =
     (case nodes fs dir of
        None \<Rightarrow> (if filepath_Dir dir = dir then True else dirsCanBeMade fs (filepath_Dir dir))
      | Some n \<Rightarrow> n = Directory)"
  unfolding dirsCanBeMade_def by (subst ancestors.simps) (simp split: option.splits)

lemma os_MkdirAll_makes_missing:
  "dirsCanBeMade fs dir \<Longrightarrow>
   os_MkdirAll fs dir =
     Inr (fs\<lparr>nodes := (\<lambda>p. if p \<in> set (missingDirs fs dir) then Some Directory else nodes fs p)\<rparr>)"
proof (induction fs dir rule: os_MkdirAll.induct)
  case (1 fs path)
  show ?case
  proof (cases "nodes fs path")
    case (Some n)
    then have "n = Directory" using "1.prems" by (subst (asm) dirsCanBeMade_unfold) simp
    with Some show ?thesis
      by (subst os_MkdirAll_unfold, subst missingDirs_unfold) simp
  next
    case None
    note absent = None
    show ?thesis
    proof (cases "filepath_Dir path = path")
      case True
      with absent show ?thesis
        by (subst os_MkdirAll_unfold, subst missingDirs_unfold) (auto simp: os_Mkdir_def fun_eq_iff)
    next
      case False
      have "dirsCanBeMade fs (filepath_Dir path)"
        using "1.prems" absent False by (subst (asm) dirsCanBeMade_unfold) simp
      from "1.IH"[OF absent False this] absent False show ?thesis
        by (subst os_MkdirAll_unfold, subst missingDirs_unfold) (auto simp: os_Mkdir_def fun_eq_iff)
    qed
  qed
qed

lemma os_MkdirAll_blocked:
  "\<not> dirsCanBeMade fs dir \<Longrightarrow> \<exists>err. os_MkdirAll fs dir = Inl err"
proof (induction fs dir rule: os_MkdirAll.induct)
  case (1 fs path)
  show ?case
  proof (cases "nodes fs path")
    case (Some n)
    then have "n \<noteq> Directory" using "1.prems" by (subst (asm) dirsCanBeMade_unfold) simp
    with Some show ?thesis
      by (subst os_MkdirAll_unfold) (cases n; simp)
  next
    case None
    note absent = None
    have fixed: "filepath_Dir path \<noteq> path"
      using "1.prems" absent by (subst (asm) dirsCanBeMade_unfold) (simp split: if_splits)
    have "\<not> dirsCanBeMade fs (filepath_Dir path)"
      using "1.prems" absent fixed by (subst (asm) dirsCanBeMade_unfold) simp
    from "1.IH"[OF absent fixed this] absent fixed show ?thesis
      by (subst os_MkdirAll_unfold) auto
  qed
qed

lemma missing_or_directory:
  "dirsCanBeMade fs dir \<Longrightarrow> dir \<in> set (missingDirs fs dir) \<or> nodes fs dir = Some Directory"
  by (subst (asm) dirsCanBeMade_unfold, subst missingDirs_unfold) (simp split: option.splits)

lemma missingDirs_absent: "d \<in> set (missingDirs fs dir) \<Longrightarrow> nodes fs d = None"
  unfolding missingDirs_def by (auto dest: set_takeWhileD)

lemma missingDirs_ancestors: "d \<in> set (missingDirs fs dir) \<Longrightarrow> d \<in> set (ancestors dir)"
  unfolding missingDirs_def by (auto dest: set_takeWhileD)

lemma copyFile_copies:
  assumes src: "nodes fs src = Some (RegularFile bytes)"
      and distinct: "src \<noteq> dst"
      and dirs: "dirsCanBeMade fs (filepath_Dir dst)"
      and free: "nodes fs dst \<noteq> Some Directory"
      and name: "dst \<noteq> []" "last dst \<noteq> CHR ''/''" "dst \<noteq> ''.''"
  shows "copyFile fs src dst =
           (None,
            \<lparr>nodes = (\<lambda>p. if p = dst then Some (RegularFile bytes)
                          else if p \<in> set (missingDirs fs (filepath_Dir dst)) then Some Directory
                          else nodes fs p),
             synced = insert dst (synced fs)\<rparr>)"
proof -
  define made where
    "made = (\<lambda>p. if p \<in> set (missingDirs fs (filepath_Dir dst)) then Some Directory else nodes fs p)"
  define fs1 where "fs1 = fs\<lparr>nodes := made\<rparr>"
  define fs2 where "fs2 = fs1\<lparr>nodes := (nodes fs1)(dst \<mapsto> RegularFile []), synced := synced fs1 - {dst}\<rparr>"
  define fs3 where "fs3 = fs2\<lparr>nodes := (nodes fs2)(dst \<mapsto> RegularFile bytes)\<rparr>"
  have opened: "os_Open fs src = Inr src" using src by (simp add: os_Open_def)
  have made: "os_MkdirAll fs (filepath_Dir dst) = Inr fs1"
    unfolding fs1_def made_def using dirs by (rule os_MkdirAll_makes_missing)
  have "dst \<notin> set (missingDirs fs (filepath_Dir dst))"
    using file_not_above_its_directory[OF name] missingDirs_ancestors by blast
  then have at_dst: "nodes fs1 dst = nodes fs dst" by (simp add: fs1_def made_def)
  have at_dir: "nodes fs1 (filepath_Dir dst) = Some Directory"
    using missing_or_directory[OF dirs] by (auto simp: fs1_def made_def)
  have "src \<notin> set (missingDirs fs (filepath_Dir dst))"
    using src missingDirs_absent[of src fs "filepath_Dir dst"] by auto
  then have at_src: "nodes fs2 src = Some (RegularFile bytes)"
    using src distinct by (simp add: fs2_def fs1_def made_def)
  have created: "os_Create fs1 dst = Inr fs2"
    unfolding os_Create_def fs2_def using at_dst at_dir free by simp
  have copied: "io_Copy fs2 dst src = Inr fs3"
    unfolding io_Copy_def fs3_def using at_src by simp
  have "copyFile fs src dst = (None, fs3\<lparr>synced := insert dst (synced fs3)\<rparr>)"
    by (simp add: copyFile_def Let_def opened made created copied file_Sync_def)
  moreover have "fs3\<lparr>synced := insert dst (synced fs3)\<rparr>
       = \<lparr>nodes = (\<lambda>p. if p = dst then Some (RegularFile bytes) else made p),
          synced = insert dst (synced fs)\<rparr>"
    by (cases fs) (auto simp: fs3_def fs2_def fs1_def fun_eq_iff)
  ultimately show ?thesis unfolding made_def by simp
qed


subsection \<open>A cleaned path is clean\<close>













subsection \<open>Absolute paths\<close>




subsection \<open>The project on disk, evaluated\<close>

lemma ancestors_p_src: "ancestors ''/p/src'' = [''/p/src'', ''/p'', ''/'']"
  by (simp add: ancestors.simps[of "''/p/src''"] ancestors.simps[of "''/p''"] ancestors.simps[of "''/''"] path_defs)

lemma ancestors_o: "ancestors ''/o'' = [''/o'', ''/'']"
  by (simp add: ancestors.simps[of "''/o''"] ancestors.simps[of "''/''"] path_defs)

lemma Dir_handler: "filepath_Dir ''/p/src/h.rs'' = ''/p/src''"
  by (simp add: path_defs)

lemma nodes_fsProject:
  "nodes fsProject = [''/p/Cargo.toml'' \<mapsto> RegularFile ''m'', ''/p/.cargo'' \<mapsto> Directory,
                          ''/p/.cargo/config.toml'' \<mapsto> RegularFile ''c'']"
  by (simp add: fsProject_def)

lemma FindUp_project: "FindUp fsProject ''/p/src/h.rs'' ''Cargo.toml'' = Inr ''/p/Cargo.toml''"
proof -
  have j1: "filepath_Join [''/p/src'', ''Cargo.toml''] = ''/p/src/Cargo.toml''" by (simp add: path_defs)
  have j2: "filepath_Join [''/p'', ''Cargo.toml''] = ''/p/Cargo.toml''" by (simp add: path_defs)
  have d: "filepath_Dir ''/p/src'' = ''/p''" by (simp add: path_defs)
  have "findUpFrom fsProject ''/p'' ''Cargo.toml'' = Inr ''/p/Cargo.toml''"
    by (subst findUpFrom_unfold) (simp add: j2 nodes_fsProject os_Stat_def errIsNil_def)
  then have "findUpFrom fsProject ''/p/src'' ''Cargo.toml'' = Inr ''/p/Cargo.toml''"
    by (subst findUpFrom_unfold) (simp add: j1 d nodes_fsProject os_Stat_def errIsNil_def)
  then show ?thesis by (simp add: FindUp_def Dir_handler)
qed

lemma FindUp_demo:
  "FindUp (files \<lparr>files = fsProject, calls = []\<rparr>) (Handler inputDemo) ''Cargo.toml'' = Inr ''/p/Cargo.toml''"
  by (simp add: FindUp_project inputDemo_def)

lemma FindUp_slash:
  "FindUp (files \<lparr>files = fsProject, calls = []\<rparr>) (Handler inputSlash) ''Cargo.toml'' = Inr ''/p/Cargo.toml''"
proof -
  have j0: "filepath_Join [''/p/src/h.rs'', ''Cargo.toml''] = ''/p/src/h.rs/Cargo.toml''" by (simp add: path_defs)
  have j1: "filepath_Join [''/p/src'', ''Cargo.toml''] = ''/p/src/Cargo.toml''" by (simp add: path_defs)
  have j2: "filepath_Join [''/p'', ''Cargo.toml''] = ''/p/Cargo.toml''" by (simp add: path_defs)
  have d0: "filepath_Dir ''/p/src/h.rs/'' = ''/p/src/h.rs''" by (simp add: path_defs)
  have d: "filepath_Dir ''/p/src'' = ''/p''" by (simp add: path_defs)
  have "findUpFrom fsProject ''/p'' ''Cargo.toml'' = Inr ''/p/Cargo.toml''"
    by (subst findUpFrom_unfold) (simp add: j2 nodes_fsProject os_Stat_def errIsNil_def)
  then have "findUpFrom fsProject ''/p/src'' ''Cargo.toml'' = Inr ''/p/Cargo.toml''"
    by (subst findUpFrom_unfold) (simp add: j1 d nodes_fsProject os_Stat_def errIsNil_def)
  then have "findUpFrom fsProject ''/p/src/h.rs'' ''Cargo.toml'' = Inr ''/p/Cargo.toml''"
    by (subst findUpFrom_unfold) (simp add: j0 Dir_handler nodes_fsProject os_Stat_def errIsNil_def)
  then show ?thesis by (simp add: FindUp_def inputSlash_def inputDemo_def d0)
qed

lemma handlerName_demo: "handlerName inputDemo = ''h''"
  by (simp add: handlerName_def inputDemo_def filepath_Base_def filepath_Ext_def
        strings_TrimSuffix_def strings_HasSuffix_def IsPathSeparator_def)

lemma handlerName_slash: "handlerName inputSlash = ''h.rs''"
  by (simp add: handlerName_def inputSlash_def inputDemo_def filepath_Base_def filepath_Ext_def
        strings_TrimSuffix_def strings_HasSuffix_def IsPathSeparator_def)

lemma artifactName_demo: "artifactName ''/p/src/h.rs'' = ''h''"
  by (simp add: artifactName_def lastElement_def stripExtension_def)

lemma artifactName_slash: "artifactName ''/p/src/h.rs/'' = ''h''"
  by (simp add: artifactName_def lastElement_def stripExtension_def)

lemma Dir_manifest: "filepath_Dir ''/p/Cargo.toml'' = ''/p''"
  by (simp add: path_defs)

lemma manifestFeatures_demo: "manifestFeatures hostBuilds fsProject ''/p/Cargo.toml'' ''h'' = [''a'', ''b'']"
  by (simp add: manifestFeatures_def toml_DecodeFile_def nodes_fsProject hostBuilds_def)

lemma manifestFeatures_slash: "manifestFeatures hostBuilds fsProject ''/p/Cargo.toml'' ''h.rs'' = []"
  by (simp add: manifestFeatures_def toml_DecodeFile_def nodes_fsProject hostBuilds_def)

lemma requestedArchitecture_demo: "requestedArchitecture hostBuilds inputDemo = ''arm_64''"
  by (simp add: requestedArchitecture_def hostBuilds_def inputDemo_def)

lemma configFileIn_p: "configFileIn fs ''/p'' =
   (if nodes fs ''/p/.cargo'' \<noteq> None \<and> nodes fs ''/p/.cargo/config.toml'' \<noteq> None
    then Some ''/p/.cargo/config.toml''
    else if nodes fs ''/p/.cargo'' \<noteq> None \<and> nodes fs ''/p/.cargo/config'' \<noteq> None
    then Some ''/p/.cargo/config'' else None)"
proof -
  have j: "filepath_Join [''/p'', ''.cargo''] = ''/p/.cargo''"
    "filepath_Join [''/p/.cargo'', ''config.toml''] = ''/p/.cargo/config.toml''"
    "filepath_Join [''/p/.cargo'', ''config''] = ''/p/.cargo/config''"
    by (simp_all add: path_defs)
  show ?thesis
    by (simp add: configFileIn_def Let_def j os_Stat_def errIsNil_def split: option.splits)
qed

lemma config_project: "FindClosestCargoConfig fsProject ''/p'' = Some ''/p/.cargo/config.toml''"
  by (subst FindClosestCargoConfig_unfold) (simp add: configFileIn_p nodes_fsProject)



lemma overrideTargetDir_partial: "overrideTargetDir hostPartial fsProject ''/p'' = Some []"
  by (simp add: overrideTargetDir_def config_project toml_DecodeFile_def nodes_fsProject hostPartial_def)

lemma copy_paths:
  "filepath_Join [''/p'', ''out''] = ''/p/out''"
  "filepath_Join [''/p'', ''target''] = ''/p/target''"
  "filepath_Join [''/p'', ''/abs/t''] = ''/p/abs/t''"
  "filepath_Join [''/p'', []] = ''/p''"
  "filepath_Join [''/p/out'', ''lambda'', ''h'', ''bootstrap''] = ''/p/out/lambda/h/bootstrap''"
  "filepath_Join [''/p/target'', ''lambda'', ''h'', ''bootstrap''] = ''/p/target/lambda/h/bootstrap''"
  "filepath_Join [''/p/abs/t'', ''lambda'', ''h'', ''bootstrap''] = ''/p/abs/t/lambda/h/bootstrap''"
  "filepath_Join [''/p'', ''lambda'', ''h'', ''bootstrap''] = ''/p/lambda/h/bootstrap''"
  "filepath_Join [''/o'', ''bootstrap''] = ''/o/bootstrap''"
  "filepath_Dir ''/o/bootstrap'' = ''/o''"
  by (simp_all add: path_defs)

lemma command_demo:
  "cargoCommand hostBuilds inputDemo fsProject ''/p/Cargo.toml'' =
     \<lparr>cmd_Args = [''cargo'', ''lambda'', ''build'', ''--bin'', ''h'', ''--release'', ''--arm64'',
                  ''--no-default-features'', ''--features'', ''a,b''],
      cmd_Dir = ''/p'', cmd_Env = [''PATH=/bin'']\<rparr>"
proof -
  have dev: "\<not> Dev inputDemo" by (simp add: inputDemo_def)
  have env: "os_Environ hostBuilds = [''PATH=/bin'']" by (simp add: hostBuilds_def)
  show ?thesis
    by (simp add: cargoCommand_def handlerName_demo requestedArchitecture_demo manifestFeatures_demo
          Dir_manifest dev env)
qed





subsection \<open>Build: a failed command\<close>

text \<open>
  C4. When the build command ends with an error, \<^verbatim>\<open>Build\<close> returns no error value but
  a result whose error list is the captured output as its single entry, with handler,
  sourcemaps and output directory at their zero values; the adapter state is returned as
  it was, so no project root is recorded or replaced.
\<close>

theorem Build_command_failure:
  assumes "FindUp (files sys) (Handler input) ''Cargo.toml'' = Inr cargoTomlFile"
      and "runToEnd host (cargoCommand host input (files sys) cargoTomlFile) (files sys) =
             ((output, Some err), fs1)"
  shows "Build host input (r, sys) =
           (Inr \<lparr>out_Handler = [], out_Sourcemaps = [], out_Errors = [output], out_Out = []\<rparr>,
            r,
            \<lparr>files = fs1,
             calls = calls sys @ [CombinedOutput (cargoCommand host input (files sys) cargoTomlFile)]\<rparr>)"
  unfolding Build_found[OF assms(1)] by (simp add: Let_def assms(2))

theorem Build_command_failure_witness:
  "Build hostFails inputDemo (New, \<lparr>files = fsProject, calls = []\<rparr>) =
     (Inr \<lparr>out_Handler = [], out_Sourcemaps = [], out_Errors = [''error: build failed''], out_Out = []\<rparr>,
      New,
      \<lparr>files = fsProject,
       calls = [CombinedOutput (cargoCommand hostFails inputDemo fsProject ''/p/Cargo.toml'')]\<rparr>)"
proof -
  have ran: "runToEnd hostFails (cargoCommand hostFails inputDemo (files \<lparr>files = fsProject, calls = []\<rparr>) ''/p/Cargo.toml'')
               (files \<lparr>files = fsProject, calls = []\<rparr>) = ((''error: build failed'', Some ExitError), fsProject)"
    by (simp add: hostFails_def)
  show ?thesis
    using Build_command_failure[OF FindUp_demo ran, of New] by simp
qed


subsection \<open>Build: no manifest\<close>

text \<open>
  C6. If neither the handler's directory nor any directory above it, up to the root, holds
  \<^verbatim>\<open>Cargo.toml\<close>, \<^verbatim>\<open>Build\<close> returns the lookup's error and no build result; nothing is
  run, copied or recorded.
\<close>

theorem Build_no_manifest_is_fatal:
  assumes "\<forall>d\<in>set (ancestors (filepath_Dir (Handler input))).
             \<not> errIsNil (os_Stat (files sys) (filepath_Join [d, ''Cargo.toml'']))"
  shows "Build host input (r, sys) = (Inl (FileNotFound ''Cargo.toml''), r, sys)"
  using findUpFrom_not_found[OF assms] by (simp add: Build_no_manifest FindUp_def)

theorem Build_no_manifest_is_fatal_witness:
  "Build hostBuilds inputDemo (New, \<lparr>files = fsEmpty, calls = []\<rparr>) =
     (Inl (FileNotFound ''Cargo.toml''), New, \<lparr>files = fsEmpty, calls = []\<rparr>)"
proof -
  have "\<forall>d\<in>set (ancestors (filepath_Dir (Handler inputDemo))).
          \<not> errIsNil (os_Stat (files \<lparr>files = fsEmpty, calls = []\<rparr>) (filepath_Join [d, ''Cargo.toml'']))"
    by (simp add: inputDemo_def Dir_handler ancestors_p_src fsEmpty_def os_Stat_def errIsNil_def)
  then show ?thesis by (rule Build_no_manifest_is_fatal)
qed


subsection \<open>Build: the command\<close>

text \<open>
  C1, as the specification states it, fails where the handler path ends in a separator:
  for \<^verbatim>\<open>/p/src/h.rs/\<close> the base file name with its extension stripped is \<^verbatim>\<open>h\<close>,
  and the command \<^verbatim>\<open>Build\<close> runs names the binary \<^verbatim>\<open>h.rs\<close> (and so finds no
  features for it in the manifest, which has them under \<^verbatim>\<open>h\<close>).
\<close>

theorem Build_keeps_extension_before_separator:
  "artifactName (Handler inputSlash) = ''h'' \<and>
   calls (snd (snd (Build hostBuilds inputSlash (New, \<lparr>files = fsProject, calls = []\<rparr>)))) =
     [CombinedOutput
        \<lparr>cmd_Args = [''cargo'', ''lambda'', ''build'', ''--bin'', ''h.rs'', ''--release'', ''--arm64'',
                     ''--no-default-features''],
         cmd_Dir = ''/p'', cmd_Env = [''PATH=/bin'']\<rparr>]"
proof -
  have dev: "\<not> Dev inputSlash" by (simp add: inputSlash_def inputDemo_def)
  have env: "os_Environ hostBuilds = [''PATH=/bin'']" by (simp add: hostBuilds_def)
  have arch: "requestedArchitecture hostBuilds inputSlash = ''arm_64''"
    by (simp add: requestedArchitecture_def hostBuilds_def inputSlash_def inputDemo_def)
  have c: "cargoCommand hostBuilds inputSlash fsProject ''/p/Cargo.toml'' =
        \<lparr>cmd_Args = [''cargo'', ''lambda'', ''build'', ''--bin'', ''h.rs'', ''--release'', ''--arm64'',
                     ''--no-default-features''],
         cmd_Dir = ''/p'', cmd_Env = [''PATH=/bin'']\<rparr>"
    by (simp add: cargoCommand_def handlerName_slash arch manifestFeatures_slash Dir_manifest dev env)
  have "artifactName (Handler inputSlash) = ''h''"
    by (simp add: inputSlash_def inputDemo_def artifactName_slash)
  then show ?thesis
    using Build_calls[OF FindUp_slash, of hostBuilds New] by (simp add: c)
qed

text \<open>
  C1, amended. For every request whose handler path names a file (it does not end in a
  separator) and whose manifest is found, \<^verbatim>\<open>Build\<close> runs exactly one command, to its
  end and with both output streams captured together: \<^verbatim>\<open>cargo lambda build --bin\<close>
  followed by the artifact name, which is the base file name of the handler path with its
  extension stripped; then \<^verbatim>\<open>--release\<close> exactly when development mode is off, then
  \<^verbatim>\<open>--arm64\<close> exactly when the requested architecture is \<^verbatim>\<open>arm_64\<close>, then
  \<^verbatim>\<open>--no-default-features\<close> always, then \<^verbatim>\<open>--features\<close> with the required features
  of the artifact joined by commas in manifest order exactly when there are any. Its
  working directory is the project root and its environment that of the orchestrator
  process.
\<close>

theorem Build_composes_cargo_command:
  assumes "FindUp (files sys) (Handler input) ''Cargo.toml'' = Inr cargoTomlFile"
      and "namesFile (Handler input)"
  shows "calls (snd (snd (Build host input (r, sys)))) =
           calls sys @
           [CombinedOutput
              \<lparr>cmd_Args =
                 [''cargo'', ''lambda'', ''build'', ''--bin'', artifactName (Handler input)] @
                 (if Dev input then [] else [''--release'']) @
                 (if requestedArchitecture host input = ''arm_64'' then [''--arm64''] else []) @
                 [''--no-default-features''] @
                 (if manifestFeatures host (files sys) cargoTomlFile (artifactName (Handler input)) = []
                  then []
                  else [''--features'',
                        commaJoined (manifestFeatures host (files sys) cargoTomlFile
                                       (artifactName (Handler input)))]),
               cmd_Dir = filepath_Dir cargoTomlFile,
               cmd_Env = os_Environ host\<rparr>]"
  unfolding Build_calls[OF assms(1)] cargoCommand_def handlerName_names_file[OF assms(2)]
    strings_Join_comma ..

theorem Build_composes_cargo_command_witness:
  "calls (snd (snd (Build hostBuilds inputDemo (New, \<lparr>files = fsProject, calls = []\<rparr>)))) =
     [CombinedOutput
        \<lparr>cmd_Args = [''cargo'', ''lambda'', ''build'', ''--bin'', ''h'', ''--release'', ''--arm64'',
                     ''--no-default-features'', ''--features'', ''a,b''],
         cmd_Dir = ''/p'', cmd_Env = [''PATH=/bin'']\<rparr>]"
proof -
  have n: "namesFile (Handler inputDemo)" by (simp add: namesFile_def inputDemo_def)
  have a: "artifactName (Handler inputDemo) = ''h''" by (simp add: inputDemo_def artifactName_demo)
  have dev: "\<not> Dev inputDemo" by (simp add: inputDemo_def)
  have env: "os_Environ hostBuilds = [''PATH=/bin'']" by (simp add: hostBuilds_def)
  show ?thesis
    using Build_composes_cargo_command[OF FindUp_demo n, of hostBuilds New]
    by (simp add: a requestedArchitecture_demo manifestFeatures_demo Dir_manifest dev env)
qed

subsection \<open>Build: a successful command\<close>

lemma Build_succeeded:
  assumes "FindUp (files sys) (Handler input) ''Cargo.toml'' = Inr f"
      and "runToEnd host (cargoCommand host input (files sys) f) (files sys) = ((output, None), fs1)"
  shows "Build host input (r, sys) =
     (Inr \<lparr>out_Handler = ''bootstrap'', out_Sourcemaps = [], out_Errors = [], out_Out = OutDir input\<rparr>,
      r\<lparr>directories := (directories r)(FunctionID input \<mapsto>
            fst (filepath_Abs (os_Getwd host) (filepath_Dir f)))\<rparr>,
      \<lparr>files = snd (copyFile fs1 (artifactPath host input (files sys) f)
                        (filepath_Join [OutDir input, ''bootstrap''])),
       calls = calls sys @ [CombinedOutput (cargoCommand host input (files sys) f)]\<rparr>)"
  unfolding Build_found[OF assms(1)] by (simp add: Let_def assms(2))

lemma dirs_for_o:
  assumes "nodes fs ''/o'' = None" and "nodes fs ''/'' = None"
  shows "dirsCanBeMade fs ''/o''" and "missingDirs fs ''/o'' = [''/o'', ''/'']"
  using assms by (simp_all add: dirsCanBeMade_def missingDirs_def ancestors_o)




subsection \<open>Build: metadata that cannot be decoded\<close>

lemma DecodeFile_without_error:
  "fst (toml_DecodeFile (\<lambda>b v. (fst (decode b v), None)) fs path v) = fst (toml_DecodeFile decode fs path v)"
  by (simp add: toml_DecodeFile_def split: option.splits node.splits)

lemma requestedArchitecture_withoutDecodeErrors:
  "requestedArchitecture (withoutDecodeErrors host) input = requestedArchitecture host input"
  by (simp add: requestedArchitecture_def withoutDecodeErrors_def)

lemma manifestFeatures_withoutDecodeErrors:
  "manifestFeatures (withoutDecodeErrors host) fs f name = manifestFeatures host fs f name"
  by (simp add: manifestFeatures_def withoutDecodeErrors_def DecodeFile_without_error)

lemma overrideTargetDir_withoutDecodeErrors:
  "overrideTargetDir (withoutDecodeErrors host) fs root = overrideTargetDir host fs root"
  by (simp add: overrideTargetDir_def withoutDecodeErrors_def DecodeFile_without_error
        split: option.splits)

lemma cargoCommand_withoutDecodeErrors:
  "cargoCommand (withoutDecodeErrors host) input fs f = cargoCommand host input fs f"
  unfolding cargoCommand_def requestedArchitecture_withoutDecodeErrors
    manifestFeatures_withoutDecodeErrors
  by (simp add: withoutDecodeErrors_def)

lemma artifactPath_withoutDecodeErrors:
  "artifactPath (withoutDecodeErrors host) input fs f = artifactPath host input fs f"
  unfolding artifactPath_def overrideTargetDir_withoutDecodeErrors ..

lemma Build_withoutDecodeErrors:
  "Build (withoutDecodeErrors host) input (r, sys) = Build host input (r, sys)"
proof (cases "FindUp (files sys) (Handler input) ''Cargo.toml''")
  case (Inl e)
  then show ?thesis by (simp add: Build_no_manifest)
next
  case (Inr f)
  have h: "runToEnd (withoutDecodeErrors host) = runToEnd host"
    "os_Getwd (withoutDecodeErrors host) = os_Getwd host"
    by (simp_all add: withoutDecodeErrors_def)
  show ?thesis
    unfolding Build_found[OF Inr] cargoCommand_withoutDecodeErrors artifactPath_withoutDecodeErrors h ..
qed

lemma cargoCommand_storesNothing:
  assumes "storesNothing host input fs f"
  shows "cargoCommand host input fs f =
           \<lparr>cmd_Args = [''cargo'', ''lambda'', ''build'', ''--bin'', handlerName input] @
                        (if Dev input then [] else [''--release'']) @ [''--no-default-features''],
            cmd_Dir = filepath_Dir f, cmd_Env = os_Environ host\<rparr>"
proof -
  have "requestedArchitecture host input = []"
    using assms by (simp add: storesNothing_def requestedArchitecture_def)
  moreover have "manifestFeatures host fs f (handlerName input) = []"
    using assms by (simp add: storesNothing_def manifestFeatures_def)
  ultimately show ?thesis by (simp add: cargoCommand_def)
qed

lemma artifactPath_storesNothing:
  assumes "storesNothing host input fs f"
  shows "artifactPath host input fs f =
           filepath_Join [filepath_Join [filepath_Dir f, ''target''], ''lambda'', handlerName input,
                          ''bootstrap'']"
proof -
  have "overrideTargetDir host fs (filepath_Dir f) = None"
    using assms by (simp add: storesNothing_def overrideTargetDir_def split: option.splits)
  then show ?thesis by (simp add: artifactPath_def)
qed

lemma copy_into_o:
  assumes "nodes fs src = Some (RegularFile bytes)" and "src \<noteq> ''/o/bootstrap''"
      and "nodes fs ''/o'' = None" and "nodes fs ''/'' = None" and "nodes fs ''/o/bootstrap'' = None"
  shows "snd (copyFile fs src ''/o/bootstrap'') =
           \<lparr>nodes = (\<lambda>p. if p = ''/o/bootstrap'' then Some (RegularFile bytes)
                         else if p \<in> set [''/o'', ''/''] then Some Directory
                         else nodes fs p),
            synced = insert ''/o/bootstrap'' (synced fs)\<rparr>"
proof -
  have d: "dirsCanBeMade fs (filepath_Dir ''/o/bootstrap'')"
    unfolding copy_paths using assms(3,4) by (rule dirs_for_o(1))
  have m: "missingDirs fs (filepath_Dir ''/o/bootstrap'') = [''/o'', ''/'']"
    unfolding copy_paths using assms(3,4) by (rule dirs_for_o(2))
  have "copyFile fs src ''/o/bootstrap'' =
           (None,
            \<lparr>nodes = (\<lambda>p. if p = ''/o/bootstrap'' then Some (RegularFile bytes)
                          else if p \<in> set (missingDirs fs (filepath_Dir ''/o/bootstrap'')) then Some Directory
                          else nodes fs p),
             synced = insert ''/o/bootstrap'' (synced fs)\<rparr>)"
    using assms(1,2) d by (rule copyFile_copies) (simp_all add: assms(5))
  then show ?thesis unfolding m by simp
qed

text \<open>
  C7, as the specification states it, fails where a decoder has stored part of its input
  before it rejects it: on \<open>hostPartial\<close> the properties blob, the manifest and the
  configuration are all rejected, and \<^verbatim>\<open>Build\<close> still passes \<^verbatim>\<open>--arm64\<close> and
  \<^verbatim>\<open>--features a,b\<close> and copies the binary from \<^verbatim>\<open>/p/lambda/h/bootstrap\<close>, not from
  the default target directory \<^verbatim>\<open>/p/target\<close>.
\<close>

theorem Build_keeps_what_decoders_stored:
  "snd (json_Unmarshal hostPartial (Properties inputDemo) \<lparr>Architecture = []\<rparr>) = Some DecodeError \<and>
   snd (toml_DecodeFile (decodeCargoToml hostPartial) fsProject ''/p/Cargo.toml'' \<lparr>Bin = []\<rparr>)
     = Some DecodeError \<and>
   snd (toml_DecodeFile (decodeCargoConfig hostPartial) fsProject ''/p/.cargo/config.toml''
          \<lparr>build = \<lparr>TargetDir = None\<rparr>\<rparr>) = Some DecodeError \<and>
   calls (snd (snd (Build hostPartial inputDemo (New, \<lparr>files = fsProject, calls = []\<rparr>)))) =
     [CombinedOutput
        \<lparr>cmd_Args = [''cargo'', ''lambda'', ''build'', ''--bin'', ''h'', ''--release'', ''--arm64'',
                     ''--no-default-features'', ''--features'', ''a,b''],
         cmd_Dir = ''/p'', cmd_Env = [''PATH=/bin'']\<rparr>] \<and>
   nodes (files (snd (snd (Build hostPartial inputDemo (New, \<lparr>files = fsProject, calls = []\<rparr>)))))
     ''/p/target/lambda/h/bootstrap'' = None \<and>
   nodes (files (snd (snd (Build hostPartial inputDemo (New, \<lparr>files = fsProject, calls = []\<rparr>)))))
     ''/o/bootstrap'' = Some (RegularFile ''ELF'')"
proof -
  define fs1 where
    "fs1 = fsProject\<lparr>nodes := (nodes fsProject)(''/p/lambda/h/bootstrap'' \<mapsto> RegularFile ''ELF'')\<rparr>"
  have n1: "nodes fs1 = (nodes fsProject)(''/p/lambda/h/bootstrap'' \<mapsto> RegularFile ''ELF'')"
    by (simp add: fs1_def)
  have errors:
    "snd (json_Unmarshal hostPartial (Properties inputDemo) \<lparr>Architecture = []\<rparr>) = Some DecodeError"
    "snd (toml_DecodeFile (decodeCargoToml hostPartial) fsProject ''/p/Cargo.toml'' \<lparr>Bin = []\<rparr>)
       = Some DecodeError"
    "snd (toml_DecodeFile (decodeCargoConfig hostPartial) fsProject ''/p/.cargo/config.toml''
            \<lparr>build = \<lparr>TargetDir = None\<rparr>\<rparr>) = Some DecodeError"
    by (simp_all add: hostPartial_def toml_DecodeFile_def nodes_fsProject)
  have dev: "\<not> Dev inputDemo" by (simp add: inputDemo_def)
  have env: "os_Environ hostPartial = [''PATH=/bin'']" by (simp add: hostPartial_def hostBuilds_def)
  have arch: "requestedArchitecture hostPartial inputDemo = ''arm_64''"
    by (simp add: requestedArchitecture_def hostPartial_def)
  have feats: "manifestFeatures hostPartial fsProject ''/p/Cargo.toml'' ''h'' = [''a'', ''b'']"
    by (simp add: manifestFeatures_def toml_DecodeFile_def nodes_fsProject hostPartial_def)
  have c: "cargoCommand hostPartial inputDemo fsProject ''/p/Cargo.toml'' =
        \<lparr>cmd_Args = [''cargo'', ''lambda'', ''build'', ''--bin'', ''h'', ''--release'', ''--arm64'',
                     ''--no-default-features'', ''--features'', ''a,b''],
         cmd_Dir = ''/p'', cmd_Env = [''PATH=/bin'']\<rparr>"
    by (simp add: cargoCommand_def handlerName_demo arch feats Dir_manifest dev env)
  have p: "artifactPath hostPartial inputDemo fsProject ''/p/Cargo.toml'' = ''/p/lambda/h/bootstrap''"
    by (simp add: artifactPath_def Dir_manifest overrideTargetDir_partial handlerName_demo copy_paths)
  have ran: "runToEnd hostPartial
               (cargoCommand hostPartial inputDemo (files \<lparr>files = fsProject, calls = []\<rparr>) ''/p/Cargo.toml'')
               (files \<lparr>files = fsProject, calls = []\<rparr>) = (([], None), fs1)"
    by (simp add: hostPartial_def fs1_def)
  have i: "OutDir inputDemo = ''/o''" by (simp add: inputDemo_def)
  have after: "snd (copyFile fs1 ''/p/lambda/h/bootstrap'' ''/o/bootstrap'') =
           \<lparr>nodes = (\<lambda>p. if p = ''/o/bootstrap'' then Some (RegularFile ''ELF'')
                         else if p \<in> set [''/o'', ''/''] then Some Directory
                         else nodes fs1 p),
            synced = insert ''/o/bootstrap'' (synced fs1)\<rparr>"
    by (rule copy_into_o) (simp_all add: n1 nodes_fsProject)
  show ?thesis
    unfolding Build_succeeded[OF FindUp_demo ran]
    by (simp add: errors c p i copy_paths after n1 nodes_fsProject)
qed

text \<open>
  C7, amended. A manifest, a cargo configuration or a properties blob that cannot be
  decoded never makes \<^verbatim>\<open>Build\<close> fail: the error of a decoder is ignored, so that
  \<^verbatim>\<open>Build\<close> does on a host exactly what it does on the host whose decoders store the
  same and report no error, and the only error \<^verbatim>\<open>Build\<close> ever returns is that of the
  manifest lookup. The build goes on with what the decoders have stored. When they have
  stored nothing, these are the permissive defaults: the command has neither
  \<^verbatim>\<open>--arm64\<close> nor \<^verbatim>\<open>--features\<close>, and after a successful command the binary is taken
  from \<^verbatim>\<open>target\<close> under the project root.
\<close>

theorem Build_tolerates_malformed_metadata:
  "Build host input (r, sys) = Build (withoutDecodeErrors host) input (r, sys) \<and>
   (fst (Build host input (r, sys)) = Inl err \<longleftrightarrow>
    FindUp (files sys) (Handler input) ''Cargo.toml'' = Inl err) \<and>
   (FindUp (files sys) (Handler input) ''Cargo.toml'' = Inr cargoTomlFile \<and>
    storesNothing host input (files sys) cargoTomlFile \<longrightarrow>
      (let cmd = \<lparr>cmd_Args = [''cargo'', ''lambda'', ''build'', ''--bin'', handlerName input] @
                              (if Dev input then [] else [''--release'']) @
                              [''--no-default-features''],
                  cmd_Dir = filepath_Dir cargoTomlFile,
                  cmd_Env = os_Environ host\<rparr>
       in calls (snd (snd (Build host input (r, sys)))) = calls sys @ [CombinedOutput cmd] \<and>
          (runToEnd host cmd (files sys) = ((output, None), fs1) \<longrightarrow>
             files (snd (snd (Build host input (r, sys)))) =
               snd (copyFile fs1
                      (filepath_Join [filepath_Join [filepath_Dir cargoTomlFile, ''target''],
                                      ''lambda'', handlerName input, ''bootstrap''])
                      (filepath_Join [OutDir input, ''bootstrap''])))))"
proof (intro conjI impI)
  show "Build host input (r, sys) = Build (withoutDecodeErrors host) input (r, sys)"
    by (simp add: Build_withoutDecodeErrors)
  show "fst (Build host input (r, sys)) = Inl err \<longleftrightarrow>
        FindUp (files sys) (Handler input) ''Cargo.toml'' = Inl err"
    by (rule Build_error_iff)
next
  assume a: "FindUp (files sys) (Handler input) ''Cargo.toml'' = Inr cargoTomlFile \<and>
             storesNothing host input (files sys) cargoTomlFile"
  then have found: "FindUp (files sys) (Handler input) ''Cargo.toml'' = Inr cargoTomlFile"
    and unstored: "storesNothing host input (files sys) cargoTomlFile" by simp_all
  define cmd where "cmd = cargoCommand host input (files sys) cargoTomlFile"
  have calls: "calls (snd (snd (Build host input (r, sys)))) = calls sys @ [CombinedOutput cmd]"
    unfolding cmd_def by (rule Build_calls[OF found])
  have copy: "files (snd (snd (Build host input (r, sys)))) =
               snd (copyFile fs1
                      (filepath_Join [filepath_Join [filepath_Dir cargoTomlFile, ''target''],
                                      ''lambda'', handlerName input, ''bootstrap''])
                      (filepath_Join [OutDir input, ''bootstrap'']))"
    if "runToEnd host cmd (files sys) = ((output, None), fs1)"
    by (simp add: Build_succeeded[OF found that[unfolded cmd_def]]
          artifactPath_storesNothing[OF unstored])
  show "let cmd = \<lparr>cmd_Args = [''cargo'', ''lambda'', ''build'', ''--bin'', handlerName input] @
                              (if Dev input then [] else [''--release'']) @
                              [''--no-default-features''],
                  cmd_Dir = filepath_Dir cargoTomlFile,
                  cmd_Env = os_Environ host\<rparr>
       in calls (snd (snd (Build host input (r, sys)))) = calls sys @ [CombinedOutput cmd] \<and>
          (runToEnd host cmd (files sys) = ((output, None), fs1) \<longrightarrow>
             files (snd (snd (Build host input (r, sys)))) =
               snd (copyFile fs1
                      (filepath_Join [filepath_Join [filepath_Dir cargoTomlFile, ''target''],
                                      ''lambda'', handlerName input, ''bootstrap''])
                      (filepath_Join [OutDir input, ''bootstrap''])))"
    unfolding Let_def cargoCommand_storesNothing[OF unstored, symmetric] cmd_def[symmetric]
    using calls copy by blast
qed

theorem Build_tolerates_malformed_metadata_witness:
  "snd (json_Unmarshal hostMalformed (Properties inputDemo) \<lparr>Architecture = []\<rparr>) = Some DecodeError \<and>
   snd (toml_DecodeFile (decodeCargoToml hostMalformed) fsProject ''/p/Cargo.toml'' \<lparr>Bin = []\<rparr>)
     = Some DecodeError \<and>
   snd (toml_DecodeFile (decodeCargoConfig hostMalformed) fsProject ''/p/.cargo/config.toml''
          \<lparr>build = \<lparr>TargetDir = None\<rparr>\<rparr>) = Some DecodeError \<and>
   fst (Build hostMalformed inputDemo (New, \<lparr>files = fsProject, calls = []\<rparr>)) =
     Inr \<lparr>out_Handler = ''bootstrap'', out_Sourcemaps = [], out_Errors = [], out_Out = ''/o''\<rparr> \<and>
   calls (snd (snd (Build hostMalformed inputDemo (New, \<lparr>files = fsProject, calls = []\<rparr>)))) =
     [CombinedOutput
        \<lparr>cmd_Args = [''cargo'', ''lambda'', ''build'', ''--bin'', ''h'', ''--release'',
                     ''--no-default-features''],
         cmd_Dir = ''/p'', cmd_Env = [''PATH=/bin'']\<rparr>] \<and>
   nodes (files (snd (snd (Build hostMalformed inputDemo (New, \<lparr>files = fsProject, calls = []\<rparr>)))))
     ''/o/bootstrap'' = Some (RegularFile ''ELF'')"
proof -
  define fs1 where
    "fs1 = fsProject\<lparr>nodes := (nodes fsProject)(''/p/target/lambda/h/bootstrap'' \<mapsto> RegularFile ''ELF'')\<rparr>"
  have n1: "nodes fs1 = (nodes fsProject)(''/p/target/lambda/h/bootstrap'' \<mapsto> RegularFile ''ELF'')"
    by (simp add: fs1_def)
  have errors:
    "snd (json_Unmarshal hostMalformed (Properties inputDemo) \<lparr>Architecture = []\<rparr>) = Some DecodeError"
    "snd (toml_DecodeFile (decodeCargoToml hostMalformed) fsProject ''/p/Cargo.toml'' \<lparr>Bin = []\<rparr>)
       = Some DecodeError"
    "snd (toml_DecodeFile (decodeCargoConfig hostMalformed) fsProject ''/p/.cargo/config.toml''
            \<lparr>build = \<lparr>TargetDir = None\<rparr>\<rparr>) = Some DecodeError"
    by (simp_all add: hostMalformed_def toml_DecodeFile_def nodes_fsProject)
  have unstored: "storesNothing hostMalformed inputDemo (files \<lparr>files = fsProject, calls = []\<rparr>) ''/p/Cargo.toml''"
    by (simp add: storesNothing_def hostMalformed_def toml_DecodeFile_def Dir_manifest config_project
          nodes_fsProject)
  have dev: "\<not> Dev inputDemo" by (simp add: inputDemo_def)
  have env: "os_Environ hostMalformed = [''PATH=/bin'']" by (simp add: hostMalformed_def hostBuilds_def)
  have i: "OutDir inputDemo = ''/o''" by (simp add: inputDemo_def)
  have ran: "runToEnd hostMalformed X (files \<lparr>files = fsProject, calls = []\<rparr>) = (([], None), fs1)"
    and ran': "runToEnd hostMalformed X fsProject = (([], None), fs1)" for X
    by (simp_all add: hostMalformed_def fs1_def)
  have after: "snd (copyFile fs1 ''/p/target/lambda/h/bootstrap'' ''/o/bootstrap'') =
           \<lparr>nodes = (\<lambda>p. if p = ''/o/bootstrap'' then Some (RegularFile ''ELF'')
                         else if p \<in> set [''/o'', ''/''] then Some Directory
                         else nodes fs1 p),
            synced = insert ''/o/bootstrap'' (synced fs1)\<rparr>"
    by (rule copy_into_o) (simp_all add: n1 nodes_fsProject)
  have t: "calls (snd (snd (Build hostMalformed inputDemo (New, \<lparr>files = fsProject, calls = []\<rparr>)))) =
             [CombinedOutput
                \<lparr>cmd_Args = [''cargo'', ''lambda'', ''build'', ''--bin'', ''h'', ''--release'',
                             ''--no-default-features''],
                 cmd_Dir = ''/p'', cmd_Env = [''PATH=/bin'']\<rparr>]"
    and f: "files (snd (snd (Build hostMalformed inputDemo (New, \<lparr>files = fsProject, calls = []\<rparr>)))) =
             snd (copyFile fs1 ''/p/target/lambda/h/bootstrap'' ''/o/bootstrap'')"
    using Build_tolerates_malformed_metadata[of hostMalformed inputDemo New
            "\<lparr>files = fsProject, calls = []\<rparr>" _ "''/p/Cargo.toml''" "[]" fs1,
            THEN conjunct2, THEN conjunct2, THEN mp, OF conjI[OF FindUp_demo unstored]]
    by (simp_all add: Let_def handlerName_demo dev env i Dir_manifest copy_paths ran')
  have r: "fst (Build hostMalformed inputDemo (New, \<lparr>files = fsProject, calls = []\<rparr>)) =
     Inr \<lparr>out_Handler = ''bootstrap'', out_Sourcemaps = [], out_Errors = [], out_Out = ''/o''\<rparr>"
    unfolding Build_succeeded[OF FindUp_demo ran] by (simp add: i)
  show ?thesis
    unfolding f after using errors t r by simp
qed

subsection \<open>ShouldRebuild\<close>

lemma ShouldRebuild_iff:
  "ShouldRebuild r functionID file \<longleftrightarrow>
     filepath_Ext file = ''.rs'' \<and>
     (\<exists>root rel. directories r functionID = Some root \<and> filepath_Rel root file = Inr rel \<and>
                 \<not> strings_HasPrefix rel ''..'')"
  by (auto simp: ShouldRebuild_def Ext_rs_iff split: option.splits sum.splits)

lemma Rel_dotdot_name: "filepath_Rel ''/root'' ''/root/..cache/x.rs'' = Inr ''..cache/x.rs''"
  by (simp add: filepath_Rel_def Let_def splitElems_def path_defs)

lemma ShouldRebuild_inside: "ShouldRebuild rootRecorded ''fn'' ''/root/src/x.rs'' = True"
  by (simp add: ShouldRebuild_def rootRecorded_def strings_HasSuffix_def
        strings_HasPrefix_def filepath_Rel_def Let_def splitElems_def path_defs)

lemma ShouldRebuild_outside: "ShouldRebuild rootRecorded ''fn'' ''/other/x.rs'' = False"
  by (simp add: ShouldRebuild_def rootRecorded_def strings_HasSuffix_def
        strings_HasPrefix_def filepath_Rel_def Let_def splitElems_def path_defs)

text \<open>
  C3. \<^verbatim>\<open>ShouldRebuild\<close> tests the relative path with \<^verbatim>\<open>strings.HasPrefix(rel, "..")\<close>,
  which also matches a first element that merely starts with two dots. With the root
  \<^verbatim>\<open>/root\<close> recorded, the changed file \<^verbatim>\<open>/root/..cache/x.rs\<close> lies under the root, its
  relative path \<^verbatim>\<open>..cache/x.rs\<close> does not begin with a parent-directory element, and the
  answer is nevertheless no rebuild.
\<close>

theorem ShouldRebuild_skips_dotdot_named_directory:
  "filepath_Rel ''/root'' ''/root/..cache/x.rs'' = Inr ''..cache/x.rs'' \<and>
   hd (elements ''..cache/x.rs'') = ''..cache'' \<and>
   ShouldRebuild rootRecorded ''fn'' ''/root/..cache/x.rs'' = False"
  by (simp add: Rel_dotdot_name ShouldRebuild_def rootRecorded_def strings_HasSuffix_def
        strings_HasPrefix_def elements_def IsPathSeparator_def)

subsection \<open>Run\<close>


subsection \<open>Logs\<close>

lemma merged_Logs: "merged out err (Logs out err)"
  by (simp add: merged_def Logs_def)

lemma snoc_in_shuffles_Nil: "ys @ [x] \<in> shuffles [x] ys"
  by (induction ys) (simp_all add: Cons_in_shuffles_rightI)

lemma shuffles_snoc1: "zs \<in> shuffles xs ys \<Longrightarrow> zs @ [x] \<in> shuffles (xs @ [x]) ys"
proof (induction xs ys arbitrary: zs rule: shuffles.induct)
  case (1 ys)
  then show ?case by (simp add: snoc_in_shuffles_Nil)
next
  case (2 xs)
  then show ?case by simp
next
  case (3 x' xs y ys)
  from "3.prems" consider
      zs' where "zs = x' # zs'" "zs' \<in> shuffles xs (y # ys)"
    | zs' where "zs = y # zs'" "zs' \<in> shuffles (x' # xs) ys"
    by auto
  then show ?case
  proof cases
    case 1
    then have "zs' @ [x] \<in> shuffles (xs @ [x]) (y # ys)" using "3.IH"(1) by simp
    then show ?thesis using 1 by (simp add: Cons_in_shuffles_leftI)
  next
    case 2
    then have "zs' @ [x] \<in> shuffles ((x' # xs) @ [x]) ys" using "3.IH"(2) by simp
    then show ?thesis using 2 Cons_in_shuffles_rightI[of "zs' @ [x]" "(x' # xs) @ [x]" ys y] by simp
  qed
qed

lemma shuffles_append_left: "zs \<in> shuffles a b \<Longrightarrow> zs @ c \<in> shuffles (a @ c) b"
proof (induction c arbitrary: zs a)
  case Nil
  then show ?case by simp
next
  case (Cons x c)
  from Cons.prems have "zs @ [x] \<in> shuffles (a @ [x]) b" by (rule shuffles_snoc1)
  from Cons.IH[OF this] show ?case by simp
qed

lemma shuffles_append_right: "zs \<in> shuffles a b \<Longrightarrow> zs @ c \<in> shuffles a (b @ c)"
  using shuffles_append_left[of zs b a c] by (simp add: shuffles_commutes)

lemma merged_step:
  assumes "step s t" and "merged out err s"
  shows "merged out err t"
  using assms
proof (cases rule: step.cases)
  case (copy1 chunk rest)
  from assms(2) obtain a b where
    ab: "out = a @ stdoutRest s" "err = b @ stderrRest s" "pipe s \<in> shuffles a b"
    by (auto simp: merged_def)
  have "out = (a @ chunk) @ rest" using ab copy1 by simp
  moreover have "pipe s @ chunk \<in> shuffles (a @ chunk) b" using ab by (simp add: shuffles_append_left)
  ultimately have "\<exists>a' b'. out = a' @ rest \<and> err = b' @ stderrRest s \<and> pipe s @ chunk \<in> shuffles a' b'"
    using ab(2) by blast
  then show ?thesis using assms(2) copy1 by (auto simp: merged_def split: if_splits)
next
  case done1
  then show ?thesis using assms(2) by (auto simp: merged_def)
next
  case (copy2 chunk rest)
  from assms(2) obtain a b where
    ab: "out = a @ stdoutRest s" "err = b @ stderrRest s" "pipe s \<in> shuffles a b"
    by (auto simp: merged_def)
  have "err = (b @ chunk) @ rest" using ab copy2 by simp
  moreover have "pipe s @ chunk \<in> shuffles a (b @ chunk)" using ab by (simp add: shuffles_append_right)
  ultimately have "\<exists>a' b'. out = a' @ stdoutRest s \<and> err = b' @ rest \<and> pipe s @ chunk \<in> shuffles a' b'"
    using ab(1) by blast
  then show ?thesis using assms(2) copy2 by (auto simp: merged_def split: if_splits)
next
  case done2
  then show ?thesis using assms(2) by (auto simp: merged_def)
next
  case close
  then show ?thesis using assms(2) by (auto simp: merged_def)
qed

lemma merged_reachable: "rtranclp step (Logs out err) s \<Longrightarrow> merged out err s"
  by (induction rule: rtranclp_induct) (simp_all add: merged_Logs merged_step)

lemma Logs_never_stuck:
  assumes "rtranclp step (Logs out err) s" and "\<not> writerClosed s"
  shows "\<exists>t. step s t"
proof -
  have m: "merged out err s" using assms(1) by (rule merged_reachable)
  show ?thesis
  proof (cases "copying1 s")
    case True
    show ?thesis
    proof (cases "stdoutRest s = []")
      case True
      with \<open>copying1 s\<close> show ?thesis by (blast intro: step.done1)
    next
      case False
      with \<open>copying1 s\<close> step.copy1[of s "stdoutRest s" "[]"] show ?thesis by auto
    qed
  next
    case False
    note f1 = False
    show ?thesis
    proof (cases "copying2 s")
      case True
      show ?thesis
      proof (cases "stderrRest s = []")
        case True
        with \<open>copying2 s\<close> show ?thesis by (blast intro: step.done2)
      next
        case False
        with \<open>copying2 s\<close> step.copy2[of s "stderrRest s" "[]"] show ?thesis by auto
      qed
    next
      case False
      with f1 m have "wg s = 0" by (simp add: merged_def)
      with assms(2) show ?thesis by (blast intro: step.close)
    qed
  qed
qed

lemma step_decreases: "step s t \<Longrightarrow> logsMeasure t < logsMeasure s"
  by (cases rule: step.cases) (auto simp: logsMeasure_def)

lemma Logs_run: "rtranclp step (Logs ''ab'' ''c'') logsEnd"
proof -
  let ?s0 = "Logs ''ab'' ''c''"
  let ?s1 = "?s0\<lparr>stdoutRest := ''b'', pipe := pipe ?s0 @ ''a''\<rparr>"
  let ?s2 = "?s1\<lparr>stderrRest := [], pipe := pipe ?s1 @ ''c''\<rparr>"
  let ?s3 = "?s2\<lparr>stdoutRest := [], pipe := pipe ?s2 @ ''b''\<rparr>"
  let ?s4 = "?s3\<lparr>copying1 := False, wg := wg ?s3 - 1\<rparr>"
  let ?s5 = "?s4\<lparr>copying2 := False, wg := wg ?s4 - 1\<rparr>"
  let ?s6 = "?s5\<lparr>writerClosed := True\<rparr>"
  have 1: "step ?s0 ?s1" by (rule step.copy1) (simp_all add: Logs_def)
  have 2: "step ?s1 ?s2" by (rule step.copy2) (simp_all add: Logs_def)
  have 3: "step ?s2 ?s3" by (rule step.copy1) (simp_all add: Logs_def)
  have 4: "step ?s3 ?s4" by (rule step.done1) (simp_all add: Logs_def)
  have 5: "step ?s4 ?s5" by (rule step.done2) (simp_all add: Logs_def)
  have 6: "step ?s5 ?s6" by (rule step.close) (simp_all add: Logs_def)
  have e: "?s6 = logsEnd" by (simp add: Logs_def logsEnd_def)
  from 1 2 3 4 5 6 have "rtranclp step ?s0 ?s6" by (meson rtranclp.rtrancl_into_rtrancl rtranclp.rtrancl_refl)
  then show ?thesis by (simp only: e)
qed

text \<open>
  C8. However the three goroutines of \<^verbatim>\<open>Logs\<close> are scheduled, the bytes in the pipe are
  always an interleaving of what has been taken from the two streams, each stream's
  bytes in their order, none lost and none twice; once the writer is closed both copy
  loops have returned, both streams are used up, and the pipe has carried an interleaving
  of all of standard output and all of standard error, N+M bytes; and a run that can make
  no further step has closed the writer.
\<close>

theorem Logs_joins_both_streams:
  assumes "rtranclp step (Logs out err) s"
  shows "(\<exists>a b. out = a @ stdoutRest s \<and> err = b @ stderrRest s \<and> pipe s \<in> shuffles a b) \<and>
         (writerClosed s \<longrightarrow>
            \<not> copying1 s \<and> \<not> copying2 s \<and> stdoutRest s = [] \<and> stderrRest s = [] \<and>
            pipe s \<in> shuffles out err \<and> length (pipe s) = length out + length err) \<and>
         ((\<nexists>t. step s t) \<longrightarrow> writerClosed s)"
proof -
  have m: "merged out err s" using assms by (rule merged_reachable)
  then obtain a b where
    ab: "out = a @ stdoutRest s" "err = b @ stderrRest s" "pipe s \<in> shuffles a b"
    by (auto simp: merged_def)
  have "writerClosed s \<longrightarrow> \<not> copying1 s \<and> \<not> copying2 s \<and> stdoutRest s = [] \<and> stderrRest s = []"
    using m by (auto simp: merged_def split: if_splits)
  moreover have "stdoutRest s = [] \<and> stderrRest s = [] \<longrightarrow>
                 pipe s \<in> shuffles out err \<and> length (pipe s) = length out + length err"
    using ab by (auto simp: length_shuffles)
  moreover have "(\<nexists>t. step s t) \<longrightarrow> writerClosed s"
    using Logs_never_stuck[OF assms] by blast
  ultimately show ?thesis using ab by blast
qed

theorem Logs_joins_both_streams_witness:
  "rtranclp step (Logs ''ab'' ''c'') logsEnd \<and> writerClosed logsEnd \<and>
   pipe logsEnd \<in> shuffles ''ab'' ''c'' \<and> length (pipe logsEnd) = 3"
  using Logs_joins_both_streams[OF Logs_run] Logs_run by (simp add: logsEnd_def)

end
